theory Spec2Isabelle
  imports Main "HOL-Library.AList"
begin

section \<open>Data model\<close>

text \<open>
  Instants (\<open>Date\<close> values and \<open>TIMESTAMP(3)\<close> columns) are epoch milliseconds.
  Integer-valued JavaScript numbers (connector numbers, transaction ids, meter readings in
  Wh) are \<open>int\<close>.
\<close>

type_synonym time = int

text \<open>
  The \<open>additionalInfo\<close> column is a JSON object. Every object this service stores there has
  scalar members only, so a JSON value is a scalar. \<open>JIso t s\<close> is the string made of the
  ISO-8601 rendering of the instant \<open>t\<close> (what a \<open>Date\<close> serialises to) followed by the
  characters \<open>s\<close>; a serialised \<open>Date\<close> is \<open>JIso t []\<close>.
\<close>

datatype jval = JNull | JBool bool | JNum int | JStr string | JIso time string

type_synonym bag = "(string \<times> jval) list"

text \<open>
  \<open>CreateTransactionData\<close> of \<open>types.ts\<close>; a transaction row extends it. The row has
  the columns the service reads and writes, \<open>additionalInfo\<close> included (the service
  stores and reads it on every transaction; the first migration does not list it);
  \<open>stop_id_tag\<close>, \<open>created_at\<close> and \<open>updated_at\<close>, which the service never reads or sets,
  are left out.
\<close>

record createTransactionData =
  cpId :: string
  connectorId :: int
  idTag :: string
  meterStart :: "int option"
  startTimestamp :: time

record transaction = createTransactionData +
  transactionId :: int
  meterStop :: "int option"
  stopTimestamp :: "time option"
  stopReason :: "string option"
  status :: string
  additionalInfo :: "bag option"

text \<open>The argument object of \<open>OcppService.stopTransaction\<close>.\<close>

record stopData =
  stop_transactionId :: "int option"
  stop_cpId :: string
  stop_connectorId :: "int option"
  stop_idTag :: "string option"
  stop_meterStop :: "int option"
  stop_stopReason :: "string option"

text \<open>A row of \<open>charge_points\<close>, as \<open>ChargePoint\<close> of \<open>types.ts\<close> has it.\<close>

record chargePoint =
  cp_cpId :: string
  cp_vendor :: "string option"
  cp_model :: "string option"
  cp_firmwareVersion :: "string option"
  cp_serialNumber :: "string option"
  cp_lastSeen :: "time option"
  cp_status :: "string option"

text \<open>
  The store: the two tables the session core works on, in row order, and the sequence
  behind the \<open>SERIAL\<close> column \<open>transaction_id\<close>.
\<close>

record db =
  chargePoints :: "chargePoint list"
  transactions :: "transaction list"
  transaction_id_seq :: int

definition emptyDb :: db where
  "emptyDb = \<lparr>chargePoints = [], transactions = [], transaction_id_seq = 1\<rparr>"

text \<open>
  Errors as values: \<open>Error m\<close> is a JavaScript \<open>new Error(m)\<close> thrown by the service; the
  others are what the Prisma client throws when an \<open>update\<close> finds no row, when an insert
  violates the foreign key \<open>transactions_cp_id_fkey\<close>, and when a number does not fit the
  \<open>INTEGER\<close> column it is written to.
\<close>

datatype error = Error string | RecordNotFound | ForeignKeyViolation | ValueOutOfRange

text \<open>
  \<open>error.message\<close>. For the Prisma errors the text is the library's; it is kept as a
  fixed text per kind.
\<close>

fun errorMessage :: "error \<Rightarrow> string" where
  "errorMessage (Error m) = m"
| "errorMessage RecordNotFound = ''Record to update not found.''"
| "errorMessage ForeignKeyViolation = ''Foreign key constraint violated''"
| "errorMessage ValueOutOfRange = ''Unable to fit integer value into an INT4''"

section \<open>Rendering numbers in template strings\<close>

definition digit_char :: "nat \<Rightarrow> char" where
  "digit_char d = ''0123456789'' ! (d mod 10)"

fun string_of_nat :: "nat \<Rightarrow> string" where
  "string_of_nat n =
     (if n < 10 then [digit_char n] else string_of_nat (n div 10) @ [digit_char (n mod 10)])"

declare string_of_nat.simps [simp del]

definition string_of_int :: "int \<Rightarrow> string" where
  "string_of_int i = (if i < 0 then CHR ''-'' # string_of_nat (nat (- i)) else string_of_nat (nat i))"

section \<open>The persistence gateway (Prisma calls on \<open>transactions\<close>)\<close>

text \<open>
  \<open>findFirst\<close> without \<open>orderBy\<close>: one of the rows that satisfy \<open>where\<close>, and \<open>null\<close> when
  there is none. The query does not say which of several matching rows is returned, and
  the store is free in it (a row that was updated may come after rows inserted later):
  \<open>pick\<close> is the choice the store makes at this call, the position of the returned row
  among the matching ones.
\<close>

definition findFirst ::
  "(transaction list \<Rightarrow> nat) \<Rightarrow> (transaction \<Rightarrow> bool) \<Rightarrow> db \<Rightarrow> transaction option" where
  "findFirst pick wh d =
     (let ms = filter wh (transactions d)
      in if ms = [] then None else Some (ms ! (pick ms mod length ms)))"

text \<open>
  \<open>findMany\<close> and \<open>findFirst\<close> with \<open>orderBy: { startTimestamp: 'desc' }\<close>: the matching
  rows, latest start first (rows with equal start keep their row order).
\<close>

definition findManyDesc :: "(transaction \<Rightarrow> bool) \<Rightarrow> db \<Rightarrow> transaction list" where
  "findManyDesc wh d = sort_key (\<lambda>t. - startTimestamp t) (filter wh (transactions d))"

definition findFirstDesc :: "(transaction \<Rightarrow> bool) \<Rightarrow> db \<Rightarrow> transaction option" where
  "findFirstDesc wh d = (case findManyDesc wh d of [] \<Rightarrow> None | t # _ \<Rightarrow> Some t)"

definition findUnique :: "int \<Rightarrow> db \<Rightarrow> transaction option" where
  "findUnique tid d = find (\<lambda>t. transactionId t = tid) (transactions d)"

text \<open>
  \<open>update({ where: { transactionId }, data })\<close>: rewrites the row with that primary key and
  returns it; throws when there is none.
\<close>

definition updateTx :: "int \<Rightarrow> (transaction \<Rightarrow> transaction) \<Rightarrow> db \<Rightarrow> (error + transaction) \<times> db" where
  "updateTx tid f d =
     (case findUnique tid d of
        None \<Rightarrow> (Inl RecordNotFound, d)
      | Some t \<Rightarrow>
          (Inr (f t),
           d\<lparr>transactions := map (\<lambda>r. if transactionId r = tid then f r else r) (transactions d)\<rparr>))"

text \<open>The JSON object a \<open>CreateTransactionData\<close> serialises to (an undefined member is dropped).\<close>

definition jsonOfCreate :: "'a createTransactionData_scheme \<Rightarrow> bag" where
  "jsonOfCreate c =
     [(''cpId'', JStr (cpId c)), (''connectorId'', JNum (connectorId c)), (''idTag'', JStr (idTag c))]
     @ (case meterStart c of None \<Rightarrow> [] | Some m \<Rightarrow> [(''meterStart'', JNum m)])
     @ [(''startTimestamp'', JIso (startTimestamp c) [])]"

text \<open>The numbers an \<open>INTEGER\<close> column (\<open>connector_id\<close>) holds.\<close>

definition int4 :: "int \<Rightarrow> bool" where
  "int4 i \<longleftrightarrow> - 2147483648 \<le> i \<and> i \<le> 2147483647"

text \<open>
  \<open>create\<close> on \<open>transactions\<close>, as the table is declared in the migration: a connector
  number outside \<open>INTEGER\<close> is refused before anything is written; the id is taken from
  the sequence (which advances even when the insert is rejected), the only constraints
  are the primary key and the foreign key to \<open>charge_points\<close>. No constraint mentions
  \<open>connector_id\<close> or \<open>status\<close>.
\<close>

definition createTx :: "createTransactionData \<Rightarrow> db \<Rightarrow> (error + transaction) \<times> db" where
  "createTx c d =
     (let tid = transaction_id_seq d;
          d1 = d\<lparr>transaction_id_seq := tid + 1\<rparr>;
          row = \<lparr>cpId = cpId c, connectorId = connectorId c, idTag = idTag c,
                 meterStart = meterStart c, startTimestamp = startTimestamp c,
                 transactionId = tid, meterStop = None, stopTimestamp = None,
                 stopReason = None, status = ''active'',
                 additionalInfo = Some (jsonOfCreate c)\<rparr>
      in if \<not> int4 (connectorId c) then (Inl ValueOutOfRange, d)
         else if cpId c \<in> cp_cpId ` set (chargePoints d)
         then (Inr row, d1\<lparr>transactions := transactions d @ [row]\<rparr>)
         else (Inl ForeignKeyViolation, d1))"

section \<open>\<open>OcppService\<close>: transactions\<close>

text \<open>The \<open>where\<close> clause of the lookup in \<open>startTransaction\<close>.\<close>

definition activeOnConnector :: "string \<Rightarrow> int \<Rightarrow> transaction \<Rightarrow> bool" where
  "activeOnConnector cp c t \<longleftrightarrow> cpId t = cp \<and> connectorId t = c \<and> status t = ''active''"

definition conflictMessage :: "int \<Rightarrow> string" where
  "conflictMessage c = ''Connector '' @ string_of_int c @ '' already has an active transaction''"

text \<open>
  \<open>startTransaction\<close> awaits the lookup and then continues with its result;
  \<open>startTransaction_continue\<close> is the part after the \<open>await\<close>, run on the store as it is by
  then.
\<close>

definition startTransaction_continue ::
  "transaction option \<Rightarrow> createTransactionData \<Rightarrow> db \<Rightarrow> (error + transaction) \<times> db" where
  "startTransaction_continue existing c d =
     (case existing of
        Some e \<Rightarrow>
          if idTag e = idTag c then (Inr e, d)
          else (Inl (Error (conflictMessage (connectorId c))), d)
      | None \<Rightarrow> createTx c d)"

definition startTransaction ::
  "(transaction list \<Rightarrow> nat) \<Rightarrow> createTransactionData \<Rightarrow> db \<Rightarrow> (error + transaction) \<times> db" where
  "startTransaction pick c d =
     startTransaction_continue (findFirst pick (activeOnConnector (cpId c) (connectorId c)) d) c d"

text \<open>
  \<open>stopTransaction\<close>. \<open>!transactionId\<close> holds for an absent id and for \<open>0\<close>; \<open>data.idTag\<close> is
  truthy for a non-empty string; \<open>connectorId\<close> is tested against \<open>undefined\<close> only.
\<close>

definition stopWhere :: "stopData \<Rightarrow> transaction \<Rightarrow> bool" where
  "stopWhere s t \<longleftrightarrow>
     cpId t = stop_cpId s \<and> status t = ''active'' \<and>
     (case stop_connectorId s of
        Some c \<Rightarrow> connectorId t = c
      | None \<Rightarrow> (case stop_idTag s of
                   Some g \<Rightarrow> (if g \<noteq> [] then idTag t = g else True)
                 | None \<Rightarrow> True))"

definition jsonOfStop :: "stopData \<Rightarrow> bag" where
  "jsonOfStop s =
     (case stop_transactionId s of None \<Rightarrow> [] | Some i \<Rightarrow> [(''transactionId'', JNum i)])
     @ [(''cpId'', JStr (stop_cpId s))]
     @ (case stop_connectorId s of None \<Rightarrow> [] | Some c \<Rightarrow> [(''connectorId'', JNum c)])
     @ (case stop_idTag s of None \<Rightarrow> [] | Some g \<Rightarrow> [(''idTag'', JStr g)])
     @ (case stop_meterStop s of None \<Rightarrow> [] | Some m \<Rightarrow> [(''meterStop'', JNum m)])
     @ (case stop_stopReason s of None \<Rightarrow> [] | Some r \<Rightarrow> [(''stopReason'', JStr r)])"

text \<open>\<open>data.stopReason || 'Local'\<close>.\<close>

definition stopReasonOrLocal :: "string option \<Rightarrow> string" where
  "stopReasonOrLocal r = (case r of None \<Rightarrow> ''Local'' | Some x \<Rightarrow> if x = [] then ''Local'' else x)"

text \<open>The \<open>data\<close> of the update; Prisma leaves a column alone when its value is \<open>undefined\<close>.\<close>

definition stopUpdate :: "time \<Rightarrow> stopData \<Rightarrow> transaction \<Rightarrow> transaction" where
  "stopUpdate now s t =
     t\<lparr>meterStop := (case stop_meterStop s of None \<Rightarrow> meterStop t | Some m \<Rightarrow> Some m),
       stopTimestamp := Some now,
       stopReason := Some (stopReasonOrLocal (stop_stopReason s)),
       status := ''completed'',
       additionalInfo := Some (jsonOfStop s)\<rparr>"

definition notFoundToStop :: string where
  "notFoundToStop = ''No active transaction found to stop''"

text \<open>The lookup made when no id is given, and the id the stop resolves to.\<close>

definition lookupStop :: "stopData \<Rightarrow> db \<Rightarrow> error + int" where
  "lookupStop s d =
     (case findFirstDesc (stopWhere s) d of
        None \<Rightarrow> Inl (Error notFoundToStop)
      | Some t \<Rightarrow> Inr (transactionId t))"

definition resolveStop :: "stopData \<Rightarrow> db \<Rightarrow> error + int" where
  "resolveStop s d =
     (case stop_transactionId s of
        None \<Rightarrow> lookupStop s d
      | Some i \<Rightarrow> if i = 0 then lookupStop s d else Inr i)"

definition stopTransaction :: "time \<Rightarrow> stopData \<Rightarrow> db \<Rightarrow> (error + transaction) \<times> db" where
  "stopTransaction now s d =
     (case resolveStop s d of
        Inl e \<Rightarrow> (Inl e, d)
      | Inr tid \<Rightarrow> updateTx tid (stopUpdate now s) d)"

text \<open>\<open>getActiveTransactions\<close>.\<close>

definition activeOf :: "string \<Rightarrow> transaction \<Rightarrow> bool" where
  "activeOf cp t \<longleftrightarrow> cpId t = cp \<and> status t = ''active''"

definition getActiveTransactions :: "string \<Rightarrow> db \<Rightarrow> transaction list" where
  "getActiveTransactions cp d = findManyDesc (activeOf cp) d"

text \<open>
  \<open>(currentAdditionalInfo.reconnectionCount || 0) + 1\<close> on a JSON scalar: a falsy value
  counts as \<open>0\<close>, \<open>true\<close> as \<open>1\<close>, and a non-empty string is concatenated with \<open>"1"\<close>.
\<close>

fun nextReconnectionCount :: "jval option \<Rightarrow> jval" where
  "nextReconnectionCount None = JNum 1"
| "nextReconnectionCount (Some JNull) = JNum 1"
| "nextReconnectionCount (Some (JBool b)) = JNum (if b then 2 else 1)"
| "nextReconnectionCount (Some (JNum n)) = JNum (n + 1)"
| "nextReconnectionCount (Some (JStr s)) = (if s = [] then JNum 1 else JStr (s @ ''1''))"
| "nextReconnectionCount (Some (JIso t s)) = JIso t (s @ ''1'')"

text \<open>
  The object \<open>{ ...currentAdditionalInfo, reconnectedAt, reconnectionCount }\<close>, with
  \<open>currentAdditionalInfo = transaction.additionalInfo || {}\<close>.
\<close>

definition resumedInfo :: "time \<Rightarrow> bag option \<Rightarrow> bag" where
  "resumedInfo now info =
     (let cur = (case info of None \<Rightarrow> [] | Some b \<Rightarrow> b)
      in AList.update ''reconnectionCount'' (nextReconnectionCount (map_of cur ''reconnectionCount''))
           (AList.update ''reconnectedAt'' (JIso now []) cur))"

definition resumeUpdate :: "time \<Rightarrow> transaction \<Rightarrow> transaction" where
  "resumeUpdate now t = t\<lparr>additionalInfo := Some (resumedInfo now (additionalInfo t))\<rparr>"

definition resumeNotFound :: "int \<Rightarrow> string" where
  "resumeNotFound tid = ''Transaction '' @ string_of_int tid @ '' not found''"

definition resumeTransaction :: "time \<Rightarrow> int \<Rightarrow> db \<Rightarrow> (error + transaction) \<times> db" where
  "resumeTransaction now tid d =
     (case findUnique tid d of
        None \<Rightarrow> (Inl (Error (resumeNotFound tid)), d)
      | Some t \<Rightarrow> updateTx tid (resumeUpdate now) d)"

section \<open>\<open>OcppController.handleReconnection\<close>\<close>

text \<open>
  The \<open>for\<close> loop over the fetched list: one \<open>resumeTransaction\<close> per element, in order,
  on the store as it is when the loop runs; the first failure leaves the loop with the
  store as the earlier iterations left it. \<open>clock i\<close> is the time read by iteration \<open>i\<close>.
\<close>

fun resumeAll :: "(nat \<Rightarrow> time) \<Rightarrow> transaction list \<Rightarrow> db \<Rightarrow> error option \<times> db" where
  "resumeAll clock [] d = (None, d)"
| "resumeAll clock (t # ts) d =
     (case resumeTransaction (clock 0) (transactionId t) d of
        (Inl e, d') \<Rightarrow> (Some e, d')
      | (Inr _, d') \<Rightarrow> resumeAll (\<lambda>i. clock (Suc i)) ts d')"

text \<open>
  \<open>handleReconnection\<close> awaits the list and then loops; \<open>handleReconnection_continue\<close> is
  the part after that \<open>await\<close>, run on the store as it is by then. A failure of the loop
  leaves the function as the exception it is.
\<close>

definition handleReconnection_continue ::
  "(nat \<Rightarrow> time) \<Rightarrow> transaction list \<Rightarrow> db \<Rightarrow> (error + transaction list) \<times> db" where
  "handleReconnection_continue clock activeTransactions d =
     (case resumeAll clock activeTransactions d of
        (Some e, d') \<Rightarrow> (Inl e, d')
      | (None, d') \<Rightarrow> (Inr activeTransactions, d'))"

definition handleReconnection ::
  "(nat \<Rightarrow> time) \<Rightarrow> string \<Rightarrow> db \<Rightarrow> (error + transaction list) \<times> db" where
  "handleReconnection clock cp d =
     handleReconnection_continue clock (getActiveTransactions cp d) d"

section \<open>\<open>OcppService\<close>: charge points\<close>

record registerData =
  reg_cpId :: string
  reg_vendor :: "string option"
  reg_model :: "string option"
  reg_firmwareVersion :: "string option"
  reg_serialNumber :: "string option"

definition keepOr :: "'a option \<Rightarrow> 'a option \<Rightarrow> 'a option" where
  "keepOr new old = (case new of None \<Rightarrow> old | Some v \<Rightarrow> Some v)"

text \<open>
  \<open>registerChargePoint\<close>: an upsert by \<open>cpId\<close>; an \<open>undefined\<close> member of the data leaves
  the column as it is.
\<close>

definition registerChargePoint :: "time \<Rightarrow> registerData \<Rightarrow> db \<Rightarrow> db" where
  "registerChargePoint now r d =
     (if reg_cpId r \<in> cp_cpId ` set (chargePoints d)
      then d\<lparr>chargePoints :=
               map (\<lambda>c. if cp_cpId c = reg_cpId r
                         then c\<lparr>cp_vendor := keepOr (reg_vendor r) (cp_vendor c),
                                cp_model := keepOr (reg_model r) (cp_model c),
                                cp_firmwareVersion :=
                                  keepOr (reg_firmwareVersion r) (cp_firmwareVersion c),
                                cp_serialNumber := keepOr (reg_serialNumber r) (cp_serialNumber c),
                                cp_lastSeen := Some now\<rparr>
                         else c) (chargePoints d)\<rparr>
      else d\<lparr>chargePoints := chargePoints d @
               [\<lparr>cp_cpId = reg_cpId r, cp_vendor = reg_vendor r, cp_model = reg_model r,
                 cp_firmwareVersion = reg_firmwareVersion r, cp_serialNumber = reg_serialNumber r,
                 cp_lastSeen = Some now, cp_status = Some ''Available''\<rparr>]\<rparr>)"

text \<open>\<open>chargePoint.update({ where: { cpId }, data })\<close>: throws when there is no such row.\<close>

definition updateCp :: "string \<Rightarrow> (chargePoint \<Rightarrow> chargePoint) \<Rightarrow> db \<Rightarrow> error option \<times> db" where
  "updateCp cp f d =
     (if cp \<in> cp_cpId ` set (chargePoints d)
      then (None, d\<lparr>chargePoints := map (\<lambda>c. if cp_cpId c = cp then f c else c) (chargePoints d)\<rparr>)
      else (Some RecordNotFound, d))"

definition updateLastSeen :: "time \<Rightarrow> string \<Rightarrow> db \<Rightarrow> error option \<times> db" where
  "updateLastSeen now cp d = updateCp cp (\<lambda>c. c\<lparr>cp_lastSeen := Some now\<rparr>) d"

text \<open>
  \<open>setChargePointStatus\<close>: for the sentinel id an \<open>updateMany\<close> with no \<open>where\<close>, otherwise
  an \<open>update\<close> of the row with that id. What the promise resolves to (a count, or the
  row) is used by no caller; the model returns the error, if any, and the store.
\<close>

definition setChargePointStatus :: "string \<Rightarrow> string \<Rightarrow> db \<Rightarrow> error option \<times> db" where
  "setChargePointStatus cp st d =
     (if cp = ''unknown''
      then (None, d\<lparr>chargePoints := map (\<lambda>c. c\<lparr>cp_status := Some st\<rparr>) (chargePoints d)\<rparr>)
      else updateCp cp (\<lambda>c. c\<lparr>cp_status := Some st\<rparr>) d)"

section \<open>The server: identity of a connection, open and close hooks\<close>

text \<open>\<open>String.prototype.split\<close> on one separator character.\<close>

fun splitOn :: "char \<Rightarrow> string \<Rightarrow> string list" where
  "splitOn c [] = [[]]"
| "splitOn c (x # xs) =
     (if x = c then [] # splitOn c xs
      else (case splitOn c xs of [] \<Rightarrow> [[x]] | y # ys \<Rightarrow> (x # y) # ys))"

text \<open>\<open>extractCpId\<close>: \<open>url.split('/').filter(Boolean)\<close>, then \<open>parts[2] || 'unknown'\<close>.\<close>

definition extractCpId :: "string \<Rightarrow> string" where
  "extractCpId url =
     (let parts = filter (\<lambda>p. p \<noteq> []) (splitOn CHR ''/'' url)
      in case drop 2 parts of
           [] \<Rightarrow> ''unknown''
         | p # _ \<Rightarrow> if p = [] then ''unknown'' else p)"

text \<open>
  The \<open>open\<close> hook: resolves the identity, stores it in the connection's user data
  (returned), sets the status to \<open>Online\<close> and runs the reconnection handling; a failure
  of either call is logged and dropped. The status update is not awaited; it writes
  \<open>charge_points\<close> only and the reconnection handling writes \<open>transactions\<close> only, so
  the order in which the two reach the store makes no difference.
\<close>

definition onOpen :: "(nat \<Rightarrow> time) \<Rightarrow> string \<Rightarrow> db \<Rightarrow> string \<times> db" where
  "onOpen clock url d =
     (let cp = extractCpId url;
          d1 = snd (setChargePointStatus cp ''Online'' d);
          d2 = snd (handleReconnection clock cp d1)
      in (cp, d2))"

text \<open>
  The \<open>close\<close> hook, with \<open>ws.getUserData().cpId || 'unknown'\<close>. Neither update is
  awaited; one sets \<open>lastSeen\<close> and the other \<open>status\<close>, so their order makes no
  difference.
\<close>

definition onClose :: "time \<Rightarrow> string option \<Rightarrow> db \<Rightarrow> db" where
  "onClose now userCpId d =
     (let cp = (case userCpId of None \<Rightarrow> ''unknown'' | Some c \<Rightarrow> if c = [] then ''unknown'' else c);
          d1 = snd (updateLastSeen now cp d)
      in snd (setChargePointStatus cp ''Offline'' d1))"

section \<open>\<open>OcppController.handleMeterValues\<close>\<close>

text \<open>The validated payload (\<open>MeterValuesRequestSchema\<close>) and the job (\<open>MeterValuesJob\<close>).\<close>

record sampledValue =
  sv_value :: string
  sv_measurand :: "string option"
  sv_phase :: "string option"
  sv_unit :: "string option"

record meterValueEntry =
  mv_timestamp :: string
  mv_sampledValue :: "sampledValue list"

record meterValuesRequest =
  req_connectorId :: int
  req_transactionId :: "int option"
  req_meterValue :: "meterValueEntry list"

record reading =
  r_timestamp :: string
  r_value :: string
  r_measurand :: "string option"
  r_phase :: "string option"
  r_unit :: "string option"

record meterValuesJob =
  job_cpId :: string
  job_connectorId :: int
  job_transactionId :: "int option"
  job_meterValues :: "reading list"

text \<open>The object built for one sampled value of one entry.\<close>

definition flatReading :: "meterValueEntry \<Rightarrow> sampledValue \<Rightarrow> reading" where
  "flatReading mv sv =
     \<lparr>r_timestamp = mv_timestamp mv, r_value = sv_value sv, r_measurand = sv_measurand sv,
      r_phase = sv_phase sv, r_unit = sv_unit sv\<rparr>"

text \<open>\<open>validated.meterValue.flatMap(mv => mv.sampledValue.map(sv => ...))\<close>.\<close>

definition flattenMeterValues :: "meterValueEntry list \<Rightarrow> reading list" where
  "flattenMeterValues mvs = concat (map (\<lambda>mv. map (flatReading mv) (mv_sampledValue mv)) mvs)"

text \<open>
  The handler on a validated payload: the meter-values queue is the list of the jobs
  added to it, oldest first.
\<close>

definition handleMeterValues ::
  "string \<Rightarrow> meterValuesRequest \<Rightarrow> meterValuesJob list \<Rightarrow> meterValuesJob list" where
  "handleMeterValues cp validated queue =
     queue @ [\<lparr>job_cpId = cp, job_connectorId = req_connectorId validated,
               job_transactionId = req_transactionId validated,
               job_meterValues = flattenMeterValues (req_meterValue validated)\<rparr>]"

section \<open>The message dispatcher\<close>

text \<open>
  The seven handlers of the controller, each a function of the identity, the payload and
  the state it works on, that returns a reply or throws.
\<close>

record ('p, 'r, 's) handlers =
  handleBootNotification :: "string \<Rightarrow> 'p \<Rightarrow> 's \<Rightarrow> (error + 'r) \<times> 's"
  handleHeartbeat :: "string \<Rightarrow> 'p \<Rightarrow> 's \<Rightarrow> (error + 'r) \<times> 's"
  handleAuthorize :: "string \<Rightarrow> 'p \<Rightarrow> 's \<Rightarrow> (error + 'r) \<times> 's"
  handleStartTransaction :: "string \<Rightarrow> 'p \<Rightarrow> 's \<Rightarrow> (error + 'r) \<times> 's"
  handleStopTransaction :: "string \<Rightarrow> 'p \<Rightarrow> 's \<Rightarrow> (error + 'r) \<times> 's"
  handleStatusNotification :: "string \<Rightarrow> 'p \<Rightarrow> 's \<Rightarrow> (error + 'r) \<times> 's"
  handleMeterValuesAction :: "string \<Rightarrow> 'p \<Rightarrow> 's \<Rightarrow> (error + 'r) \<times> 's"

text \<open>\<open>SimpleOcppServer.handleAction\<close>: the \<open>switch\<close> on the action name.\<close>

definition handleAction ::
  "('p, 'r, 's) handlers \<Rightarrow> string \<Rightarrow> string \<Rightarrow> 'p \<Rightarrow> 's \<Rightarrow> (error + 'r) \<times> 's" where
  "handleAction h cp action payload s =
     (if action = ''BootNotification'' then handleBootNotification h cp payload s
      else if action = ''Heartbeat'' then handleHeartbeat h cp payload s
      else if action = ''Authorize'' then handleAuthorize h cp payload s
      else if action = ''StartTransaction'' then handleStartTransaction h cp payload s
      else if action = ''StopTransaction'' then handleStopTransaction h cp payload s
      else if action = ''StatusNotification'' then handleStatusNotification h cp payload s
      else if action = ''MeterValues'' then handleMeterValuesAction h cp payload s
      else (Inl (Error (''Unsupported action: '' @ action)), s))"

text \<open>
  A raw message after \<open>JSON.parse\<close>: the parse failed (with the parser's message), or the
  value is not an array of at least three elements, or it is
  \<open>[messageType, uniqueId, action, payload]\<close> with the payload possibly missing.
\<close>

datatype 'p message =
  Unparseable string
| NotCallShaped
| Frame int string string "'p option"

text \<open>
  What is written to the socket: \<open>[3, uniqueId, payload]\<close> or
  \<open>[4, uniqueId, errorCode, description, {}]\<close>.
\<close>

datatype 'r wire = CallResult string 'r | CallError string string string

text \<open>
  \<open>SimpleOcppServer.handleMessage\<close>; \<open>cp\<close> is \<open>ws.getUserData().cpId || 'unknown'\<close> and
  \<open>noPayload\<close> is the \<open>{}\<close> of \<open>payload || {}\<close>. The \<open>catch\<close> is outside the scope of
  \<open>uniqueId\<close> and answers with the id \<open>'unknown'\<close>.
\<close>

definition handleMessage ::
  "('p, 'r, 's) handlers \<Rightarrow> 'p \<Rightarrow> string \<Rightarrow> 'p message \<Rightarrow> 's \<Rightarrow> 'r wire list \<times> 's" where
  "handleMessage h noPayload cp m s =
     (case m of
        Unparseable msg \<Rightarrow> ([CallError ''unknown'' ''InternalError'' msg], s)
      | NotCallShaped \<Rightarrow>
          ([CallError ''unknown'' ''InvalidMessage'' ''Invalid OCPP message format''], s)
      | Frame messageType uniqueId action payload \<Rightarrow>
          if messageType = 2
          then (case handleAction h cp action (case payload of None \<Rightarrow> noPayload | Some p \<Rightarrow> p) s of
                  (Inr response, s') \<Rightarrow> ([CallResult uniqueId response], s')
                | (Inl e, s') \<Rightarrow> ([CallError ''unknown'' ''InternalError'' (errorMessage e)], s'))
          else ([], s))"

text \<open>
  The \<open>switch\<close> of the in-memory server \<open>server.js\<close> on a call: the state is its counter
  \<open>nextTransactionId\<close>, \<open>now\<close> is the clock.
\<close>

datatype legacyReply =
  BootAccepted time
| CurrentTime time
| AuthorizeAccepted time
| EmptyReply
| StartAccepted int
| StopAccepted
| DataTransferAccepted

definition serverjs_call :: "time \<Rightarrow> string \<Rightarrow> string \<Rightarrow> int \<Rightarrow> legacyReply wire \<times> int" where
  "serverjs_call now uniqueId action nextTransactionId =
     (if action = ''BootNotification'' then (CallResult uniqueId (BootAccepted now), nextTransactionId)
      else if action = ''Heartbeat'' then (CallResult uniqueId (CurrentTime now), nextTransactionId)
      else if action = ''Authorize''
        then (CallResult uniqueId (AuthorizeAccepted (now + 24 * 3600 * 1000)), nextTransactionId)
      else if action = ''StatusNotification'' then (CallResult uniqueId EmptyReply, nextTransactionId)
      else if action = ''StartTransaction''
        then (CallResult uniqueId (StartAccepted nextTransactionId), nextTransactionId + 1)
      else if action = ''StopTransaction'' then (CallResult uniqueId StopAccepted, nextTransactionId)
      else if action = ''MeterValues'' then (CallResult uniqueId EmptyReply, nextTransactionId)
      else if action = ''DataTransfer'' then (CallResult uniqueId DataTransferAccepted, nextTransactionId)
      else (CallError uniqueId ''NotImplemented'' (''Action '' @ action @ '' not implemented''),
            nextTransactionId))"

section \<open>Sequential runs and the exclusivity invariant\<close>

text \<open>
  The operations of the service and the controller that write to the store, each run to
  completion before the next starts.
\<close>

datatype op =
  Register time registerData
| Start "transaction list \<Rightarrow> nat" createTransactionData
| Stop time stopData
| Resume time int
| Reconnect "nat \<Rightarrow> time" string
| SetStatus string string
| LastSeen time string

fun apply_op :: "op \<Rightarrow> db \<Rightarrow> db" where
  "apply_op (Register now r) d = registerChargePoint now r d"
| "apply_op (Start pick c) d = snd (startTransaction pick c d)"
| "apply_op (Stop now s) d = snd (stopTransaction now s d)"
| "apply_op (Resume now tid) d = snd (resumeTransaction now tid d)"
| "apply_op (Reconnect clock cp) d = snd (handleReconnection clock cp d)"
| "apply_op (SetStatus cp st) d = snd (setChargePointStatus cp st d)"
| "apply_op (LastSeen now cp) d = snd (updateLastSeen now cp d)"

definition run :: "op list \<Rightarrow> db \<Rightarrow> db" where
  "run ops d = fold apply_op ops d"

text \<open>At most one \<open>active\<close> row per \<open>(cpId, connectorId)\<close>.\<close>

definition activeRows :: "string \<Rightarrow> int \<Rightarrow> db \<Rightarrow> transaction list" where
  "activeRows cp c d = filter (activeOnConnector cp c) (transactions d)"

definition exclusive :: "db \<Rightarrow> bool" where
  "exclusive d \<longleftrightarrow>
     (\<forall>t \<in> set (transactions d). length (activeRows (cpId t) (connectorId t) d) \<le> 1)"

text \<open>
  How one row may differ after an operation: same key and connector, the status as it
  was or \<open>completed\<close>. And how it may differ after a resume: in \<open>additionalInfo\<close> only.
\<close>

definition rowStep :: "transaction \<Rightarrow> transaction \<Rightarrow> bool" where
  "rowStep r r' \<longleftrightarrow>
     transactionId r' = transactionId r \<and> cpId r' = cpId r \<and> connectorId r' = connectorId r
     \<and> (status r' = status r \<or> status r' = ''completed'')"

definition sameButInfo :: "transaction \<Rightarrow> transaction \<Rightarrow> bool" where
  "sameButInfo r r' \<longleftrightarrow> r' = r\<lparr>additionalInfo := additionalInfo r'\<rparr>"

text \<open>
  Two \<open>startTransaction\<close> calls whose lookups both complete before either continues: the
  interleaving at the \<open>await\<close> of two overlapping requests.
\<close>

definition startTransaction_overlapped ::
  "(transaction list \<Rightarrow> nat) \<Rightarrow> createTransactionData \<Rightarrow>
   (transaction list \<Rightarrow> nat) \<Rightarrow> createTransactionData \<Rightarrow> db
     \<Rightarrow> (error + transaction) \<times> (error + transaction) \<times> db" where
  "startTransaction_overlapped pa a pb b d =
     (let ea = findFirst pa (activeOnConnector (cpId a) (connectorId a)) d;
          eb = findFirst pb (activeOnConnector (cpId b) (connectorId b)) d;
          (ra, d1) = startTransaction_continue ea a d;
          (rb, d2) = startTransaction_continue eb b d1
      in (ra, rb, d2))"

section \<open>Example states\<close>

definition ex_cp1 :: chargePoint where
  "ex_cp1 = \<lparr>cp_cpId = ''CP1'', cp_vendor = Some ''Acme'', cp_model = Some ''X1'',
            cp_firmwareVersion = None, cp_serialNumber = None, cp_lastSeen = Some 50,
            cp_status = Some ''Available''\<rparr>"

definition ex_cp2 :: chargePoint where
  "ex_cp2 = \<lparr>cp_cpId = ''CP2'', cp_vendor = Some ''Acme'', cp_model = Some ''X2'',
            cp_firmwareVersion = None, cp_serialNumber = None, cp_lastSeen = Some 60,
            cp_status = Some ''Available''\<rparr>"

text \<open>Two choices a store may make among matching rows: the oldest row, the newest row.\<close>

definition pickFirst :: "transaction list \<Rightarrow> nat" where
  "pickFirst ms = 0"

definition pickLast :: "transaction list \<Rightarrow> nat" where
  "pickLast ms = length ms - 1"

definition ex_idle :: db where
  "ex_idle = \<lparr>chargePoints = [ex_cp1, ex_cp2], transactions = [], transaction_id_seq = 1\<rparr>"

definition ex_startTag1 :: createTransactionData where
  "ex_startTag1 = \<lparr>cpId = ''CP1'', connectorId = 1, idTag = ''TAG1'', meterStart = Some 1000,
                  startTimestamp = 100\<rparr>"

definition ex_startTag2 :: createTransactionData where
  "ex_startTag2 = \<lparr>cpId = ''CP1'', connectorId = 1, idTag = ''TAG2'', meterStart = Some 1500,
                  startTimestamp = 200\<rparr>"

definition ex_tx1 :: transaction where
  "ex_tx1 = \<lparr>cpId = ''CP1'', connectorId = 1, idTag = ''TAG1'', meterStart = Some 1000,
            startTimestamp = 100, transactionId = 1, meterStop = None, stopTimestamp = None,
            stopReason = None, status = ''active'',
            additionalInfo = Some [(''cpId'', JStr ''CP1''), (''connectorId'', JNum 1),
              (''idTag'', JStr ''TAG1''), (''meterStart'', JNum 1000),
              (''startTimestamp'', JIso 100 [])]\<rparr>"

definition ex_active :: db where
  "ex_active = \<lparr>chargePoints = [ex_cp1, ex_cp2], transactions = [ex_tx1], transaction_id_seq = 2\<rparr>"

definition ex_tx2 :: transaction where
  "ex_tx2 = \<lparr>cpId = ''CP1'', connectorId = 2, idTag = ''TAG2'', meterStart = Some 1500,
            startTimestamp = 200, transactionId = 2, meterStop = None, stopTimestamp = None,
            stopReason = None, status = ''active'', additionalInfo = None\<rparr>"

definition ex_tx3 :: transaction where
  "ex_tx3 = \<lparr>cpId = ''CP1'', connectorId = 3, idTag = ''TAG1'', meterStart = Some 10,
            startTimestamp = 300, transactionId = 3, meterStop = None, stopTimestamp = None,
            stopReason = None, status = ''active'', additionalInfo = None\<rparr>"

definition ex_three :: db where
  "ex_three = \<lparr>chargePoints = [ex_cp1, ex_cp2], transactions = [ex_tx1, ex_tx2, ex_tx3],
              transaction_id_seq = 4\<rparr>"

definition ex_stopById :: stopData where
  "ex_stopById = \<lparr>stop_transactionId = Some 1, stop_cpId = ''CP1'', stop_connectorId = Some 2,
                 stop_idTag = Some ''TAG1'', stop_meterStop = Some 2000, stop_stopReason = None\<rparr>"

definition ex_stopByConnector :: stopData where
  "ex_stopByConnector = \<lparr>stop_transactionId = None, stop_cpId = ''CP1'',
                 stop_connectorId = Some 2, stop_idTag = Some ''TAG1'',
                 stop_meterStop = Some 2000, stop_stopReason = Some ''Remote''\<rparr>"

definition ex_stopByTag :: stopData where
  "ex_stopByTag = \<lparr>stop_transactionId = None, stop_cpId = ''CP1'', stop_connectorId = None,
                 stop_idTag = Some ''TAG1'', stop_meterStop = Some 2000,
                 stop_stopReason = Some ''Remote''\<rparr>"

definition ex_stopByCp :: stopData where
  "ex_stopByCp = \<lparr>stop_transactionId = None, stop_cpId = ''CP1'', stop_connectorId = None,
                 stop_idTag = None, stop_meterStop = Some 2000, stop_stopReason = Some ''Remote''\<rparr>"

definition ex_stopMissing :: stopData where
  "ex_stopMissing = \<lparr>stop_transactionId = Some 7, stop_cpId = ''CP1'', stop_connectorId = Some 1,
                    stop_idTag = Some ''TAG1'', stop_meterStop = Some 2000,
                    stop_stopReason = None\<rparr>"

definition ex_stopZero :: stopData where
  "ex_stopZero = \<lparr>stop_transactionId = Some 0, stop_cpId = ''CP1'', stop_connectorId = None,
                 stop_idTag = Some ''TAG2'', stop_meterStop = Some 2000, stop_stopReason = None\<rparr>"

definition ex_register1 :: registerData where
  "ex_register1 = \<lparr>reg_cpId = ''CP1'', reg_vendor = Some ''Acme'', reg_model = Some ''X1'',
                   reg_firmwareVersion = None, reg_serialNumber = None\<rparr>"

definition ex_stopFirst :: stopData where
  "ex_stopFirst = \<lparr>stop_transactionId = Some 1, stop_cpId = ''CP1'', stop_connectorId = None,
                  stop_idTag = None, stop_meterStop = Some 2000, stop_stopReason = None\<rparr>"

definition ex_stopAgain :: stopData where
  "ex_stopAgain = \<lparr>stop_transactionId = Some 1, stop_cpId = ''CP1'', stop_connectorId = None,
                  stop_idTag = None, stop_meterStop = Some 9999,
                  stop_stopReason = Some ''Remote''\<rparr>"

definition ex_stoppedOnce :: db where
  "ex_stoppedOnce = snd (stopTransaction 900 ex_stopFirst ex_active)"

definition ex_session :: "op list" where
  "ex_session =
     [Register 10 ex_register1, Start pickFirst ex_startTag1, Start pickLast ex_startTag1,
      Start pickFirst ex_startTag2, Resume 300 1, Stop 900 ex_stopFirst,
      Start pickLast ex_startTag2]"

definition ex_later :: "op list" where
  "ex_later =
     [Stop 950 ex_stopAgain, Start pickFirst ex_startTag1, Resume 1000 1, Stop 1100 ex_stopByCp]"

text \<open>
  The store with two active transactions on connector 1 of \<open>CP1\<close>; a start request for a
  charge point that is not registered, and one whose connector number is \<open>2^31\<close>; a stop
  request that carries the empty \<open>idTag\<close>.
\<close>

definition ex_txTag2 :: transaction where
  "ex_txTag2 = \<lparr>cpId = ''CP1'', connectorId = 1, idTag = ''TAG2'', meterStart = Some 1500,
            startTimestamp = 200, transactionId = 2, meterStop = None, stopTimestamp = None,
            stopReason = None, status = ''active'',
            additionalInfo = Some (jsonOfCreate ex_startTag2)\<rparr>"

definition ex_twoActive :: db where
  "ex_twoActive = \<lparr>chargePoints = [ex_cp1, ex_cp2], transactions = [ex_tx1, ex_txTag2],
                  transaction_id_seq = 3\<rparr>"



definition ex_stopEmptyTag :: stopData where
  "ex_stopEmptyTag = \<lparr>stop_transactionId = None, stop_cpId = ''CP1'', stop_connectorId = None,
                     stop_idTag = Some [], stop_meterStop = Some 2000, stop_stopReason = None\<rparr>"

definition ex_entry1 :: meterValueEntry where
  "ex_entry1 = \<lparr>mv_timestamp = ''2024-01-01T10:00:00Z'',
     mv_sampledValue =
       [\<lparr>sv_value = ''1500'', sv_measurand = Some ''Energy.Active.Import.Register'',
          sv_phase = None, sv_unit = None\<rparr>,
        \<lparr>sv_value = ''22.1'', sv_measurand = Some ''Voltage'', sv_phase = Some ''L1'',
          sv_unit = None\<rparr>]\<rparr>"

definition ex_entry2 :: meterValueEntry where
  "ex_entry2 = \<lparr>mv_timestamp = ''2024-01-01T10:05:00Z'',
     mv_sampledValue =
       [\<lparr>sv_value = ''1600'', sv_measurand = Some ''Energy.Active.Import.Register'',
          sv_phase = None, sv_unit = None\<rparr>]\<rparr>"

definition ex_meterValues :: meterValuesRequest where
  "ex_meterValues = \<lparr>req_connectorId = 1, req_transactionId = None,
                     req_meterValue = [ex_entry1, ex_entry2]\<rparr>"

text \<open>
  The loop of \<open>handleReconnection\<close> seen from one row, when no iteration fails: iteration
  \<open>k\<close> rewrites the rows whose key is that of the \<open>k\<close>-th fetched transaction.
\<close>

fun resumedBy :: "(nat \<Rightarrow> time) \<Rightarrow> transaction list \<Rightarrow> transaction \<Rightarrow> transaction" where
  "resumedBy clock [] r = r"
| "resumedBy clock (t # ts) r =
     resumedBy (\<lambda>i. clock (Suc i)) ts
       (if transactionId r = transactionId t then resumeUpdate (clock 0) r else r)"

definition ex_clock :: "nat \<Rightarrow> time" where
  "ex_clock i = 1000 + int i"

definition ex_vanished :: db where
  "ex_vanished = \<lparr>chargePoints = [ex_cp1, ex_cp2], transactions = [ex_tx1, ex_tx3],
                 transaction_id_seq = 4\<rparr>"

text \<open>Handlers that answer with their own name and count the calls.\<close>

definition ex_handlers :: "(unit, string, nat) handlers" where
  "ex_handlers =
     \<lparr>handleBootNotification = (\<lambda>cp p s. (Inr ''BootNotification'', s + 1)),
      handleHeartbeat = (\<lambda>cp p s. (Inr ''Heartbeat'', s + 1)),
      handleAuthorize = (\<lambda>cp p s. (Inr ''Authorize'', s + 1)),
      handleStartTransaction = (\<lambda>cp p s. (Inr ''StartTransaction'', s + 1)),
      handleStopTransaction = (\<lambda>cp p s. (Inr ''StopTransaction'', s + 1)),
      handleStatusNotification = (\<lambda>cp p s. (Inr ''StatusNotification'', s + 1)),
      handleMeterValuesAction = (\<lambda>cp p s. (Inr ''MeterValues'', s + 1))\<rparr>"

section \<open>Lookups\<close>

lemma map_update_at:
  assumes "distinct (map key xs)" "i < length xs" "key (xs ! i) = k"
  shows "map (\<lambda>c. if key c = k then f c else c) xs = xs[i := f (xs ! i)]"
proof (rule nth_equalityI)
  show "length (map (\<lambda>c. if key c = k then f c else c) xs) = length (xs[i := f (xs ! i)])"
    by simp
next
  fix j assume "j < length (map (\<lambda>c. if key c = k then f c else c) xs)"
  then have j: "j < length xs" by simp
  show "map (\<lambda>c. if key c = k then f c else c) xs ! j = xs[i := f (xs ! i)] ! j"
  proof (cases "j = i")
    case True
    with assms j show ?thesis by simp
  next
    case False
    with assms j have "key (xs ! j) \<noteq> k"
      by (metis distinct_conv_nth length_map nth_map)
    with False j show ?thesis by simp
  qed
qed

lemma findFirst_activeRows:
  "findFirst pick (activeOnConnector cp c) d =
     (if activeRows cp c d = [] then None
      else Some (activeRows cp c d ! (pick (activeRows cp c d) mod length (activeRows cp c d))))"
  by (simp add: findFirst_def activeRows_def Let_def)

lemma findFirst_member:
  assumes "activeRows cp c d \<noteq> []"
  shows "\<exists>e \<in> set (activeRows cp c d). findFirst pick (activeOnConnector cp c) d = Some e"
proof -
  from assms have "pick (activeRows cp c d) mod length (activeRows cp c d) < length (activeRows cp c d)"
    by simp
  then have "activeRows cp c d ! (pick (activeRows cp c d) mod length (activeRows cp c d))
      \<in> set (activeRows cp c d)"
    by (rule nth_mem)
  with assms show ?thesis by (simp add: findFirst_activeRows)
qed



lemma startTransaction_found:
  assumes "activeRows (cpId c) (connectorId c) d \<noteq> []"
  shows "snd (startTransaction pick c d) = d"
proof -
  from findFirst_member [OF assms, of pick] obtain e where
    "findFirst pick (activeOnConnector (cpId c) (connectorId c)) d = Some e"
    by blast
  then show ?thesis
    by (simp add: startTransaction_def startTransaction_continue_def)
qed

lemma startTransaction_idle:
  assumes "activeRows (cpId c) (connectorId c) d = []"
  shows "startTransaction pick c d = createTx c d"
  using assms
  by (simp add: startTransaction_def startTransaction_continue_def findFirst_activeRows)


lemma ex_tx1_fields:
  "cpId ex_tx1 = ''CP1''" "connectorId ex_tx1 = 1" "idTag ex_tx1 = ''TAG1''"
  "startTimestamp ex_tx1 = 100" "transactionId ex_tx1 = 1" "status ex_tx1 = ''active''"
  "meterStop ex_tx1 = None"
  by (simp_all add: ex_tx1_def)

lemma ex_txTag2_fields:
  "cpId ex_txTag2 = ''CP1''" "connectorId ex_txTag2 = 1" "idTag ex_txTag2 = ''TAG2''"
  "startTimestamp ex_txTag2 = 200" "transactionId ex_txTag2 = 2" "status ex_txTag2 = ''active''"
  by (simp_all add: ex_txTag2_def)

lemma ex_startTag1_fields:
  "cpId ex_startTag1 = ''CP1''" "connectorId ex_startTag1 = 1" "idTag ex_startTag1 = ''TAG1''"
  by (simp_all add: ex_startTag1_def)

lemma ex_startTag2_fields:
  "cpId ex_startTag2 = ''CP1''" "connectorId ex_startTag2 = 1" "idTag ex_startTag2 = ''TAG2''"
  by (simp_all add: ex_startTag2_def)


lemma ex_active_rows: "transactions ex_active = [ex_tx1]"
  by (simp add: ex_active_def)

lemma ex_idle_rows: "transactions ex_idle = []" "chargePoints ex_idle = [ex_cp1, ex_cp2]"
  by (simp_all add: ex_idle_def)


lemma ex_idle_rows_on_1: "activeRows ''CP1'' 1 ex_idle = []"
  by (simp add: activeRows_def ex_idle_rows)

lemma ex_twoActive_rows_on_1: "activeRows ''CP1'' 1 ex_twoActive = [ex_tx1, ex_txTag2]"
  by (simp add: activeRows_def activeOnConnector_def ex_twoActive_def ex_tx1_fields ex_txTag2_fields)

lemma ex_tx1_created: "ex_tx1 = \<lparr>cpId = ''CP1'', connectorId = 1, idTag = ''TAG1'',
     meterStart = Some 1000, startTimestamp = 100, transactionId = 1, meterStop = None,
     stopTimestamp = None, stopReason = None, status = ''active'',
     additionalInfo = Some (jsonOfCreate ex_startTag1)\<rparr>"
  by (simp add: ex_tx1_def jsonOfCreate_def ex_startTag1_def)

lemma overlapped_on_idle:
  assumes "activeRows (cpId a) (connectorId a) d = []" "activeRows (cpId b) (connectorId b) d = []"
  shows "startTransaction_overlapped pa a pb b d =
     (fst (createTx a d), fst (createTx b (snd (createTx a d))), snd (createTx b (snd (createTx a d))))"
  using assms
  by (simp add: startTransaction_overlapped_def findFirst_activeRows startTransaction_continue_def
      Let_def split: prod.splits)

lemma ex_first_created:
  "createTx ex_startTag1 ex_idle
     = (Inr ex_tx1, ex_idle\<lparr>transactions := [ex_tx1], transaction_id_seq := 2\<rparr>)"
  by (simp add: createTx_def Let_def int4_def ex_idle_def ex_cp1_def ex_cp2_def ex_tx1_created)
     (simp add: ex_startTag1_def)

lemma ex_second_created:
  "createTx ex_startTag2 (ex_idle\<lparr>transactions := [ex_tx1], transaction_id_seq := 2\<rparr>)
     = (Inr ex_txTag2, ex_twoActive)"
  by (simp add: createTx_def Let_def int4_def ex_idle_def ex_cp1_def ex_cp2_def ex_txTag2_def
      ex_twoActive_def)
     (simp add: ex_startTag2_def)


section \<open>Starting a transaction\<close>







section \<open>Stopping a transaction\<close>

lemma findFirstDesc_None:
  "findFirstDesc wh d = None \<longleftrightarrow> filter wh (transactions d) = []"
proof -
  have "sort_key (\<lambda>t. - startTimestamp t) (filter wh (transactions d)) = []
          \<longleftrightarrow> filter wh (transactions d) = []"
    by (metis length_sort length_0_conv)
  then show ?thesis
    by (cases "sort_key (\<lambda>t. - startTimestamp t) (filter wh (transactions d))")
       (simp_all add: findFirstDesc_def findManyDesc_def)
qed

lemma findFirstDesc_Some:
  assumes "findFirstDesc wh d = Some t"
  shows "t \<in> set (transactions d) \<and> wh t
         \<and> (\<forall>u \<in> set (transactions d). wh u \<longrightarrow> startTimestamp u \<le> startTimestamp t)"
proof -
  let ?f = "\<lambda>t. - startTimestamp t"
  let ?ys = "sort_key ?f (filter wh (transactions d))"
  from assms obtain rest where ys: "?ys = t # rest"
    by (auto simp: findFirstDesc_def findManyDesc_def split: list.splits)
  have "set ?ys = set (filter wh (transactions d))" by simp
  with ys have mem: "set (filter wh (transactions d)) = insert t (set rest)" by simp
  have "sorted (map ?f ?ys)" by (rule sorted_sort_key)
  with ys have le: "\<forall>u \<in> set rest. ?f t \<le> ?f u" by simp
  from mem have "t \<in> set (transactions d)" "wh t" by auto
  moreover have "\<forall>u \<in> set (transactions d). wh u \<longrightarrow> startTimestamp u \<le> startTimestamp t"
  proof (intro ballI impI)
    fix u assume "u \<in> set (transactions d)" "wh u"
    then have "u \<in> insert t (set rest)" using mem by auto
    then show "startTimestamp u \<le> startTimestamp t" using le by auto
  qed
  ultimately show ?thesis by blast
qed

lemma findFirstDesc_exists:
  assumes "u \<in> set (transactions d)" "wh u"
  shows "\<exists>t. findFirstDesc wh d = Some t"
proof (cases "findFirstDesc wh d")
  case None
  then have "filter wh (transactions d) = []" by (simp add: findFirstDesc_None)
  with assms show ?thesis by (auto simp: filter_empty_conv)
qed simp

lemma findUnique_mem:
  "findUnique tid d = Some t \<Longrightarrow> t \<in> set (transactions d) \<and> transactionId t = tid"
  by (auto simp: findUnique_def find_Some_iff)

lemma find_distinct_key:
  "distinct (map f xs) \<Longrightarrow> r \<in> set xs \<Longrightarrow> find (\<lambda>t. f t = f r) xs = Some r"
  by (induction xs) (auto simp: image_iff)

lemma findUnique_keyed:
  "distinct (map transactionId (transactions d)) \<Longrightarrow> r \<in> set (transactions d)
   \<Longrightarrow> findUnique (transactionId r) d = Some r"
  by (simp add: findUnique_def find_distinct_key)

lemma findUnique_None:
  "findUnique tid d = None \<longleftrightarrow> tid \<notin> transactionId ` set (transactions d)"
  by (auto simp: findUnique_def find_None_iff image_iff)

lemma lookupStop_resolves:
  assumes "u \<in> set (transactions d)" "stopWhere s u"
  shows "\<exists>t \<in> set (transactions d). lookupStop s d = Inr (transactionId t) \<and> stopWhere s t
           \<and> (\<forall>v \<in> set (transactions d). stopWhere s v \<longrightarrow> startTimestamp v \<le> startTimestamp t)"
proof -
  from assms findFirstDesc_exists [of u d "stopWhere s"]
  obtain t where t: "findFirstDesc (stopWhere s) d = Some t"
    by blast
  from findFirstDesc_Some [OF t] t show ?thesis
    by (auto simp: lookupStop_def)
qed

lemma resolveStop_noId:
  "stop_transactionId s = None \<or> stop_transactionId s = Some 0 \<Longrightarrow> resolveStop s d = lookupStop s d"
  by (auto simp: resolveStop_def)

lemma stopTransaction_effect:
  assumes "resolveStop s d = Inr i" "distinct (map transactionId (transactions d))"
    "r \<in> set (transactions d)" "transactionId r = i"
  shows "stopTransaction now s d =
     (Inr (stopUpdate now s r),
      d\<lparr>transactions := map (\<lambda>v. if transactionId v = i then stopUpdate now s r else v) (transactions d)\<rparr>)"
proof -
  from assms have fu: "findUnique i d = Some r" using findUnique_keyed by blast
  have "map (\<lambda>v. if transactionId v = i then stopUpdate now s v else v) (transactions d)
      = map (\<lambda>v. if transactionId v = i then stopUpdate now s r else v) (transactions d)"
  proof (rule map_cong [OF refl])
    fix v assume v: "v \<in> set (transactions d)"
    show "(if transactionId v = i then stopUpdate now s v else v) = (if transactionId v = i then stopUpdate now s r else v)"
    proof (cases "transactionId v = i")
      case True
      with assms v have "v = r" by (metis distinct_map inj_onD)
      then show ?thesis by simp
    qed simp
  qed
  with assms(1) fu show ?thesis by (simp add: stopTransaction_def updateTx_def)
qed

lemma ex_three_rows: "transactions ex_three = [ex_tx1, ex_tx2, ex_tx3]"
  by (simp add: ex_three_def)

lemma ex_tx2_fields:
  "cpId ex_tx2 = ''CP1''" "connectorId ex_tx2 = 2" "idTag ex_tx2 = ''TAG2''"
  "startTimestamp ex_tx2 = 200" "transactionId ex_tx2 = 2" "status ex_tx2 = ''active''"
  "meterStop ex_tx2 = None"
  by (simp_all add: ex_tx2_def)

lemma ex_tx3_fields:
  "cpId ex_tx3 = ''CP1''" "connectorId ex_tx3 = 3" "idTag ex_tx3 = ''TAG1''"
  "startTimestamp ex_tx3 = 300" "transactionId ex_tx3 = 3" "status ex_tx3 = ''active''"
  "meterStop ex_tx3 = None"
  by (simp_all add: ex_tx3_def)

lemmas ex_rows = ex_three_rows ex_tx1_fields ex_tx2_fields ex_tx3_fields

lemma no_match_stop_fails:
  assumes "stop_transactionId s = None \<or> stop_transactionId s = Some 0"
    and "filter (stopWhere s) (transactions d) = []"
  shows "stopTransaction now s d = (Inl (Error ''No active transaction found to stop''), d)"
proof -
  from assms(2) have "findFirstDesc (stopWhere s) d = None"
    by (simp add: findFirstDesc_None)
  with assms(1) have "resolveStop s d = Inl (Error notFoundToStop)"
    by (auto simp: resolveStop_def lookupStop_def)
  then show ?thesis by (simp add: stopTransaction_def notFoundToStop_def)
qed

text \<open>
  C5 (stop on nothing), as the code has it. The call carries no \<open>transactionId\<close> (or the
  id \<open>0\<close>, which the code takes for none). What it looks for is an active transaction of
  the \<open>cpId\<close> that is on the given connector when a \<open>connectorId\<close> is given (the \<open>idTag\<close> is
  then not looked at); that carries the given \<open>idTag\<close> when no \<open>connectorId\<close> is given and
  the \<open>idTag\<close> is not empty; and any active transaction of the \<open>cpId\<close> when neither is
  given, an empty \<open>idTag\<close> counting as not given. When there is no such transaction,
  \<open>stopTransaction\<close> throws \<open>No active transaction found to stop\<close> and the store, so every
  row, is left as it was.
\<close>

theorem stop_nothing:
  "((stop_transactionId s = None \<or> stop_transactionId s = Some 0)
      \<and> stop_connectorId s = Some c
      \<and> (\<forall>t \<in> set (transactions d).
            \<not> (cpId t = stop_cpId s \<and> status t = ''active'' \<and> connectorId t = c))
     \<longrightarrow> stopTransaction now s d = (Inl (Error ''No active transaction found to stop''), d))
   \<and> ((stop_transactionId s = None \<or> stop_transactionId s = Some 0)
      \<and> stop_connectorId s = None \<and> stop_idTag s = Some g \<and> g \<noteq> []
      \<and> (\<forall>t \<in> set (transactions d).
            \<not> (cpId t = stop_cpId s \<and> status t = ''active'' \<and> idTag t = g))
     \<longrightarrow> stopTransaction now s d = (Inl (Error ''No active transaction found to stop''), d))
   \<and> ((stop_transactionId s = None \<or> stop_transactionId s = Some 0)
      \<and> stop_connectorId s = None \<and> (stop_idTag s = None \<or> stop_idTag s = Some [])
      \<and> (\<forall>t \<in> set (transactions d). \<not> (cpId t = stop_cpId s \<and> status t = ''active''))
     \<longrightarrow> stopTransaction now s d = (Inl (Error ''No active transaction found to stop''), d))"
proof (intro conjI impI)
  assume h: "(stop_transactionId s = None \<or> stop_transactionId s = Some 0)
      \<and> stop_connectorId s = Some c
      \<and> (\<forall>t \<in> set (transactions d).
            \<not> (cpId t = stop_cpId s \<and> status t = ''active'' \<and> connectorId t = c))"
  then have "filter (stopWhere s) (transactions d) = []"
    by (auto simp: filter_empty_conv stopWhere_def)
  with h show "stopTransaction now s d = (Inl (Error ''No active transaction found to stop''), d)"
    using no_match_stop_fails [of s d now] by blast
next
  assume h: "(stop_transactionId s = None \<or> stop_transactionId s = Some 0)
      \<and> stop_connectorId s = None \<and> stop_idTag s = Some g \<and> g \<noteq> []
      \<and> (\<forall>t \<in> set (transactions d).
            \<not> (cpId t = stop_cpId s \<and> status t = ''active'' \<and> idTag t = g))"
  then have "filter (stopWhere s) (transactions d) = []"
    by (auto simp: filter_empty_conv stopWhere_def)
  with h show "stopTransaction now s d = (Inl (Error ''No active transaction found to stop''), d)"
    using no_match_stop_fails [of s d now] by blast
next
  assume h: "(stop_transactionId s = None \<or> stop_transactionId s = Some 0)
      \<and> stop_connectorId s = None \<and> (stop_idTag s = None \<or> stop_idTag s = Some [])
      \<and> (\<forall>t \<in> set (transactions d). \<not> (cpId t = stop_cpId s \<and> status t = ''active''))"
  then have "filter (stopWhere s) (transactions d) = []"
    by (auto simp: filter_empty_conv stopWhere_def)
  with h show "stopTransaction now s d = (Inl (Error ''No active transaction found to stop''), d)"
    using no_match_stop_fails [of s d now] by blast
qed

theorem stop_nothing_witness:
  "stopTransaction 900 ex_stopByConnector ex_active
     = (Inl (Error ''No active transaction found to stop''), ex_active)
   \<and> stopTransaction 900 ex_stopZero ex_active
     = (Inl (Error ''No active transaction found to stop''), ex_active)
   \<and> stopTransaction 900 ex_stopEmptyTag ex_idle
     = (Inl (Error ''No active transaction found to stop''), ex_idle)"
proof -
  have connector: "stopTransaction 900 ex_stopByConnector ex_active
     = (Inl (Error ''No active transaction found to stop''), ex_active)"
    using stop_nothing [of ex_stopByConnector 2 ex_active 900, THEN conjunct1]
    by (simp add: ex_stopByConnector_def ex_active_rows ex_tx1_fields)
  have tag: "stopTransaction 900 ex_stopZero ex_active
     = (Inl (Error ''No active transaction found to stop''), ex_active)"
    using stop_nothing [of ex_stopZero _ ex_active 900 "''TAG2''", THEN conjunct2, THEN conjunct1]
    by (simp add: ex_stopZero_def ex_active_rows ex_tx1_fields)
  have none: "stopTransaction 900 ex_stopEmptyTag ex_idle
     = (Inl (Error ''No active transaction found to stop''), ex_idle)"
    using stop_nothing [of ex_stopEmptyTag _ ex_idle 900, THEN conjunct2, THEN conjunct2]
    by (simp add: ex_stopEmptyTag_def ex_idle_rows)
  from connector tag none show ?thesis by (intro conjI)
qed

text \<open>
  C5 as stated fails for a supplied empty \<open>idTag\<close>: the call carries no \<open>transactionId\<close> and
  no \<open>connectorId\<close>, its \<open>idTag\<close> is the empty string, and no transaction of the store
  carries the empty \<open>idTag\<close>; yet the call succeeds and completes transaction 3, the
  latest-started active transaction of the charge point.
\<close>

theorem stop_empty_tag_counterexample:
  "stop_transactionId ex_stopEmptyTag = None
   \<and> stop_connectorId ex_stopEmptyTag = None
   \<and> stop_idTag ex_stopEmptyTag = Some []
   \<and> map idTag (transactions ex_three) = [''TAG1'', ''TAG2'', ''TAG1'']
   \<and> map status (transactions ex_three) = [''active'', ''active'', ''active'']
   \<and> \<not> isl (fst (stopTransaction 900 ex_stopEmptyTag ex_three))
   \<and> map status (transactions (snd (stopTransaction 900 ex_stopEmptyTag ex_three)))
       = [''active'', ''active'', ''completed'']"
  by (simp add: stopTransaction_def resolveStop_def lookupStop_def findFirstDesc_def
      findManyDesc_def stopWhere_def ex_stopEmptyTag_def ex_rows updateTx_def findUnique_def
      stopUpdate_def)

text \<open>
  C4 (stop resolution), as the code has it. A \<open>transactionId\<close> that is given and is not \<open>0\<close>
  is the id that is stopped, whatever \<open>connectorId\<close> and \<open>idTag\<close> say. With the id absent
  or \<open>0\<close>: a given \<open>connectorId\<close> resolves to an active transaction of
  \<open>(cpId, connectorId)\<close> with the latest start; else a given non-empty \<open>idTag\<close> resolves to
  an active transaction of \<open>(cpId, idTag)\<close> with the latest start; else (no \<open>idTag\<close>, or the
  empty one) the latest-started active transaction of the \<open>cpId\<close> is taken. When the id
  resolved is the key of a row \<open>r\<close>, the call succeeds, only that row changes, and it
  becomes \<open>r'\<close>: status \<open>completed\<close>, \<open>stopTimestamp\<close> the time of the call, \<open>meterStop\<close> the
  given reading (kept when none is given), \<open>stopReason\<close> the given one, \<open>Local\<close> when it is
  absent or empty. When the id resolved is the key of no row, the update throws and the
  store is left as it was.
\<close>

theorem stop_resolution:
  "(stop_transactionId s = Some i \<and> i \<noteq> 0 \<longrightarrow> resolveStop s d = Inr i)
   \<and> ((stop_transactionId s = None \<or> stop_transactionId s = Some 0)
        \<and> stop_connectorId s = Some c
        \<and> u \<in> set (transactions d)
        \<and> cpId u = stop_cpId s \<and> connectorId u = c \<and> status u = ''active''
      \<longrightarrow> (\<exists>t \<in> set (transactions d). resolveStop s d = Inr (transactionId t)
             \<and> cpId t = stop_cpId s \<and> connectorId t = c \<and> status t = ''active''
             \<and> (\<forall>v \<in> set (transactions d).
                    cpId v = stop_cpId s \<and> connectorId v = c \<and> status v = ''active''
                    \<longrightarrow> startTimestamp v \<le> startTimestamp t)))
   \<and> ((stop_transactionId s = None \<or> stop_transactionId s = Some 0)
        \<and> stop_connectorId s = None \<and> stop_idTag s = Some g \<and> g \<noteq> []
        \<and> u \<in> set (transactions d)
        \<and> cpId u = stop_cpId s \<and> idTag u = g \<and> status u = ''active''
      \<longrightarrow> (\<exists>t \<in> set (transactions d). resolveStop s d = Inr (transactionId t)
             \<and> cpId t = stop_cpId s \<and> idTag t = g \<and> status t = ''active''
             \<and> (\<forall>v \<in> set (transactions d).
                    cpId v = stop_cpId s \<and> idTag v = g \<and> status v = ''active''
                    \<longrightarrow> startTimestamp v \<le> startTimestamp t)))
   \<and> ((stop_transactionId s = None \<or> stop_transactionId s = Some 0)
        \<and> stop_connectorId s = None \<and> (stop_idTag s = None \<or> stop_idTag s = Some [])
        \<and> u \<in> set (transactions d)
        \<and> cpId u = stop_cpId s \<and> status u = ''active''
      \<longrightarrow> (\<exists>t \<in> set (transactions d). resolveStop s d = Inr (transactionId t)
             \<and> cpId t = stop_cpId s \<and> status t = ''active''
             \<and> (\<forall>v \<in> set (transactions d).
                    cpId v = stop_cpId s \<and> status v = ''active''
                    \<longrightarrow> startTimestamp v \<le> startTimestamp t)))
   \<and> (resolveStop s d = Inr i \<and> distinct (map transactionId (transactions d))
        \<and> r \<in> set (transactions d) \<and> transactionId r = i
      \<longrightarrow> (\<exists>r' d'. stopTransaction now s d = (Inr r', d')
             \<and> transactions d' = map (\<lambda>v. if transactionId v = i then r' else v) (transactions d)
             \<and> status r' = ''completed'' \<and> stopTimestamp r' = Some now
             \<and> meterStop r' = (case stop_meterStop s of None \<Rightarrow> meterStop r | Some m \<Rightarrow> Some m)
             \<and> stopReason r' =
                 Some (case stop_stopReason s of
                         None \<Rightarrow> ''Local'' | Some x \<Rightarrow> if x = [] then ''Local'' else x)
             \<and> transactionId r' = i \<and> cpId r' = cpId r \<and> connectorId r' = connectorId r
             \<and> idTag r' = idTag r \<and> meterStart r' = meterStart r
             \<and> startTimestamp r' = startTimestamp r))
   \<and> (resolveStop s d = Inr i \<and> i \<notin> transactionId ` set (transactions d)
      \<longrightarrow> stopTransaction now s d = (Inl RecordNotFound, d))"
proof (intro conjI impI)
  assume "stop_transactionId s = Some i \<and> i \<noteq> 0"
  then show "resolveStop s d = Inr i" by (simp add: resolveStop_def)
next
  assume h: "(stop_transactionId s = None \<or> stop_transactionId s = Some 0)
        \<and> stop_connectorId s = Some c
        \<and> u \<in> set (transactions d)
        \<and> cpId u = stop_cpId s \<and> connectorId u = c \<and> status u = ''active''"
  then have w: "\<And>v. stopWhere s v \<longleftrightarrow> cpId v = stop_cpId s \<and> connectorId v = c \<and> status v = ''active''"
    by (auto simp: stopWhere_def)
  from h w have "stopWhere s u" by simp
  with h lookupStop_resolves [of u d s] resolveStop_noId [of s d]
  show "\<exists>t \<in> set (transactions d). resolveStop s d = Inr (transactionId t)
             \<and> cpId t = stop_cpId s \<and> connectorId t = c \<and> status t = ''active''
             \<and> (\<forall>v \<in> set (transactions d).
                    cpId v = stop_cpId s \<and> connectorId v = c \<and> status v = ''active''
                    \<longrightarrow> startTimestamp v \<le> startTimestamp t)"
    unfolding w by auto
next
  assume h: "(stop_transactionId s = None \<or> stop_transactionId s = Some 0)
        \<and> stop_connectorId s = None \<and> stop_idTag s = Some g \<and> g \<noteq> []
        \<and> u \<in> set (transactions d)
        \<and> cpId u = stop_cpId s \<and> idTag u = g \<and> status u = ''active''"
  then have w: "\<And>v. stopWhere s v \<longleftrightarrow> cpId v = stop_cpId s \<and> idTag v = g \<and> status v = ''active''"
    by (auto simp: stopWhere_def)
  from h w have "stopWhere s u" by simp
  with h lookupStop_resolves [of u d s] resolveStop_noId [of s d]
  show "\<exists>t \<in> set (transactions d). resolveStop s d = Inr (transactionId t)
             \<and> cpId t = stop_cpId s \<and> idTag t = g \<and> status t = ''active''
             \<and> (\<forall>v \<in> set (transactions d).
                    cpId v = stop_cpId s \<and> idTag v = g \<and> status v = ''active''
                    \<longrightarrow> startTimestamp v \<le> startTimestamp t)"
    unfolding w by auto
next
  assume h: "(stop_transactionId s = None \<or> stop_transactionId s = Some 0)
        \<and> stop_connectorId s = None \<and> (stop_idTag s = None \<or> stop_idTag s = Some [])
        \<and> u \<in> set (transactions d)
        \<and> cpId u = stop_cpId s \<and> status u = ''active''"
  then have w: "\<And>v. stopWhere s v \<longleftrightarrow> cpId v = stop_cpId s \<and> status v = ''active''"
    by (auto simp: stopWhere_def)
  from h w have "stopWhere s u" by simp
  with h lookupStop_resolves [of u d s] resolveStop_noId [of s d]
  show "\<exists>t \<in> set (transactions d). resolveStop s d = Inr (transactionId t)
             \<and> cpId t = stop_cpId s \<and> status t = ''active''
             \<and> (\<forall>v \<in> set (transactions d).
                    cpId v = stop_cpId s \<and> status v = ''active''
                    \<longrightarrow> startTimestamp v \<le> startTimestamp t)"
    unfolding w by auto
next
  assume h: "resolveStop s d = Inr i \<and> distinct (map transactionId (transactions d))
        \<and> r \<in> set (transactions d) \<and> transactionId r = i"
  then have "stopTransaction now s d =
     (Inr (stopUpdate now s r),
      d\<lparr>transactions := map (\<lambda>v. if transactionId v = i then stopUpdate now s r else v) (transactions d)\<rparr>)"
    by (simp add: stopTransaction_effect)
  with h show "\<exists>r' d'. stopTransaction now s d = (Inr r', d')
             \<and> transactions d' = map (\<lambda>v. if transactionId v = i then r' else v) (transactions d)
             \<and> status r' = ''completed'' \<and> stopTimestamp r' = Some now
             \<and> meterStop r' = (case stop_meterStop s of None \<Rightarrow> meterStop r | Some m \<Rightarrow> Some m)
             \<and> stopReason r' =
                 Some (case stop_stopReason s of
                         None \<Rightarrow> ''Local'' | Some x \<Rightarrow> if x = [] then ''Local'' else x)
             \<and> transactionId r' = i \<and> cpId r' = cpId r \<and> connectorId r' = connectorId r
             \<and> idTag r' = idTag r \<and> meterStart r' = meterStart r
             \<and> startTimestamp r' = startTimestamp r"
    by (simp add: stopUpdate_def stopReasonOrLocal_def)
next
  assume "resolveStop s d = Inr i \<and> i \<notin> transactionId ` set (transactions d)"
  then show "stopTransaction now s d = (Inl RecordNotFound, d)"
    by (simp add: stopTransaction_def updateTx_def findUnique_None [THEN iffD2])
qed


theorem stop_resolution_witness:
  "resolveStop ex_stopById ex_three = Inr 1
   \<and> resolveStop ex_stopByConnector ex_three = Inr 2
   \<and> resolveStop ex_stopByTag ex_three = Inr 3
   \<and> resolveStop ex_stopByCp ex_three = Inr 3
   \<and> (\<exists>r' d'. stopTransaction 900 ex_stopById ex_three = (Inr r', d')
         \<and> map status (transactions d') = [''completed'', ''active'', ''active'']
         \<and> meterStop r' = Some 2000 \<and> stopTimestamp r' = Some 900
         \<and> stopReason r' = Some ''Local'' \<and> transactionId r' = 1)
   \<and> stopTransaction 900 ex_stopMissing ex_three = (Inl RecordNotFound, ex_three)"
proof -
  have byId: "resolveStop ex_stopById ex_three = Inr 1"
    using stop_resolution [of ex_stopById 1 ex_three, THEN conjunct1]
    by (simp add: ex_stopById_def)
  have "\<exists>t \<in> set (transactions ex_three).
          resolveStop ex_stopByConnector ex_three = Inr (transactionId t) \<and> connectorId t = 2"
    using stop_resolution [of ex_stopByConnector _ ex_three 2 ex_tx2,
        THEN conjunct2, THEN conjunct1]
    by (simp add: ex_stopByConnector_def ex_rows)
  then have byConnector: "resolveStop ex_stopByConnector ex_three = Inr 2"
    by (auto simp: ex_rows)
  have "\<exists>t \<in> set (transactions ex_three).
          resolveStop ex_stopByTag ex_three = Inr (transactionId t) \<and> idTag t = ''TAG1''
          \<and> (\<forall>v \<in> set (transactions ex_three). idTag v = ''TAG1'' \<longrightarrow> startTimestamp v \<le> startTimestamp t)"
    using stop_resolution [of ex_stopByTag _ ex_three _ ex_tx1 "''TAG1''",
        THEN conjunct2, THEN conjunct2, THEN conjunct1]
    by (simp add: ex_stopByTag_def ex_rows)
  then have byTag: "resolveStop ex_stopByTag ex_three = Inr 3"
    by (auto simp: ex_rows)
  have "\<exists>t \<in> set (transactions ex_three).
          resolveStop ex_stopByCp ex_three = Inr (transactionId t)
          \<and> (\<forall>v \<in> set (transactions ex_three). startTimestamp v \<le> startTimestamp t)"
    using stop_resolution [of ex_stopByCp _ ex_three _ ex_tx1,
        THEN conjunct2, THEN conjunct2, THEN conjunct2, THEN conjunct1]
    by (simp add: ex_stopByCp_def ex_rows)
  then have byCp: "resolveStop ex_stopByCp ex_three = Inr 3"
    by (auto simp: ex_rows)
  have "\<exists>r' d'. stopTransaction 900 ex_stopById ex_three = (Inr r', d')
         \<and> transactions d' = map (\<lambda>v. if transactionId v = 1 then r' else v) (transactions ex_three)
         \<and> status r' = ''completed'' \<and> stopTimestamp r' = Some 900
         \<and> meterStop r' = Some 2000 \<and> stopReason r' = Some ''Local'' \<and> transactionId r' = 1"
    using byId stop_resolution [of ex_stopById 1 ex_three _ _ _ ex_tx1 900,
        THEN conjunct2, THEN conjunct2, THEN conjunct2, THEN conjunct2, THEN conjunct1]
    by (simp add: ex_stopById_def ex_rows) blast
  then have effect: "\<exists>r' d'. stopTransaction 900 ex_stopById ex_three = (Inr r', d')
         \<and> map status (transactions d') = [''completed'', ''active'', ''active'']
         \<and> meterStop r' = Some 2000 \<and> stopTimestamp r' = Some 900
         \<and> stopReason r' = Some ''Local'' \<and> transactionId r' = 1"
    by (auto simp: ex_rows)
  have missing: "stopTransaction 900 ex_stopMissing ex_three = (Inl RecordNotFound, ex_three)"
    using stop_resolution [of ex_stopMissing 7 ex_three,
        THEN conjunct1]
      stop_resolution [of ex_stopMissing 7 ex_three _ _ _ _ 900,
        THEN conjunct2, THEN conjunct2, THEN conjunct2, THEN conjunct2, THEN conjunct2]
    by (simp add: ex_stopMissing_def ex_rows)
  show ?thesis by (intro conjI byId byConnector byTag byCp effect missing)
qed

text \<open>
  C4 as stated fails for the id \<open>0\<close>: a call that supplies \<open>transactionId = 0\<close> and
  \<open>idTag = TAG2\<close> is not resolved by its id; it stops transaction 2, found by the tag.
\<close>

theorem stop_by_zero_id_counterexample:
  "stop_transactionId ex_stopZero = Some 0
   \<and> resolveStop ex_stopZero ex_three = Inr 2
   \<and> map status (transactions (snd (stopTransaction 900 ex_stopZero ex_three)))
       = [''active'', ''completed'', ''active'']"
  by (simp add: ex_three_def ex_tx1_def ex_tx2_def ex_tx3_def ex_stopZero_def resolveStop_def lookupStop_def findFirstDesc_def findManyDesc_def
      stopWhere_def stopTransaction_def updateTx_def findUnique_def stopUpdate_def)


section \<open>Rows under the operations\<close>

lemma exclusive_pairs: "exclusive d \<longleftrightarrow> (\<forall>cp c. length (activeRows cp c d) \<le> 1)"
proof
  assume ex: "exclusive d"
  show "\<forall>cp c. length (activeRows cp c d) \<le> 1"
  proof (intro allI)
    fix cp c
    show "length (activeRows cp c d) \<le> 1"
    proof (cases "activeRows cp c d")
      case Nil
      then show ?thesis by simp
    next
      case (Cons t ts)
      then have "t \<in> set (activeRows cp c d)" by simp
      then have "t \<in> set (transactions d)" "cpId t = cp" "connectorId t = c"
        by (auto simp: activeRows_def activeOnConnector_def)
      with ex show ?thesis by (auto simp: exclusive_def)
    qed
  qed
next
  assume "\<forall>cp c. length (activeRows cp c d) \<le> 1"
  then show "exclusive d" by (simp add: exclusive_def)
qed

lemma filter_map_le:
  assumes "\<And>r. P (g r) \<Longrightarrow> P r"
  shows "length (filter P (map g xs)) \<le> length (filter P xs)"
  using assms by (induction xs) (auto simp: le_Suc_eq)

lemma exclusive_map:
  assumes "exclusive d" and "transactions d' = map g (transactions d)"
    and "\<And>r. cpId (g r) = cpId r \<and> connectorId (g r) = connectorId r
              \<and> (status (g r) = ''active'' \<longrightarrow> status r = ''active'')"
  shows "exclusive d'"
proof -
  have "length (activeRows cp c d') \<le> 1" for cp c
  proof -
    have "length (filter (activeOnConnector cp c) (map g (transactions d)))
            \<le> length (filter (activeOnConnector cp c) (transactions d))"
      by (rule filter_map_le) (use assms(3) in \<open>auto simp: activeOnConnector_def\<close>)
    moreover from assms(1) have "length (activeRows cp c d) \<le> 1"
      by (simp add: exclusive_pairs)
    ultimately show ?thesis using assms(2) by (simp add: activeRows_def)
  qed
  then show ?thesis by (simp add: exclusive_pairs)
qed

lemma exclusive_same: "transactions d' = transactions d \<Longrightarrow> exclusive d \<Longrightarrow> exclusive d'"
  by (simp add: exclusive_def activeRows_def)

lemma updateTx_shape:
  "\<exists>g. transactions (snd (updateTx tid f d)) = map g (transactions d) \<and> (\<forall>r. g r = r \<or> g r = f r)"
proof (cases "findUnique tid d")
  case None
  then have "transactions (snd (updateTx tid f d)) = map (\<lambda>r. r) (transactions d)"
    by (simp add: updateTx_def)
  then show ?thesis by blast
next
  case (Some t)
  then have "transactions (snd (updateTx tid f d))
      = map (\<lambda>r. if transactionId r = tid then f r else r) (transactions d)"
    by (simp add: updateTx_def)
  moreover have "\<forall>r. (if transactionId r = tid then f r else r) = r
                  \<or> (if transactionId r = tid then f r else r) = f r" by simp
  ultimately show ?thesis by blast
qed

lemma stopTransaction_shape:
  "\<exists>g. transactions (snd (stopTransaction now s d)) = map g (transactions d)
       \<and> (\<forall>r. g r = r \<or> g r = stopUpdate now s r)"
proof (cases "resolveStop s d")
  case (Inl e)
  then have "transactions (snd (stopTransaction now s d)) = map (\<lambda>r. r) (transactions d)"
    by (simp add: stopTransaction_def)
  then show ?thesis by blast
next
  case (Inr tid)
  then show ?thesis using updateTx_shape [of tid "stopUpdate now s" d]
    by (simp add: stopTransaction_def)
qed

lemma resumeTransaction_shape:
  "\<exists>g. transactions (snd (resumeTransaction now tid d)) = map g (transactions d)
       \<and> (\<forall>r. g r = r \<or> g r = resumeUpdate now r)"
proof (cases "findUnique tid d")
  case None
  then have "transactions (snd (resumeTransaction now tid d)) = map (\<lambda>r. r) (transactions d)"
    by (simp add: resumeTransaction_def)
  then show ?thesis by blast
next
  case (Some t)
  then show ?thesis using updateTx_shape [of tid "resumeUpdate now" d]
    by (simp add: resumeTransaction_def)
qed

lemma sameButInfo_iff: "sameButInfo r r' \<longleftrightarrow> (\<exists>x. r' = r\<lparr>additionalInfo := x\<rparr>)"
proof
  assume "sameButInfo r r'"
  then have "r' = r\<lparr>additionalInfo := additionalInfo r'\<rparr>" by (simp only: sameButInfo_def)
  then show "\<exists>x. r' = r\<lparr>additionalInfo := x\<rparr>" by (rule exI)
next
  assume "\<exists>x. r' = r\<lparr>additionalInfo := x\<rparr>"
  then obtain x where "r' = r\<lparr>additionalInfo := x\<rparr>" by blast
  then show "sameButInfo r r'" by (simp add: sameButInfo_def)
qed

lemma sameButInfo_refl: "sameButInfo r r"
  by (simp add: sameButInfo_def)

lemma sameButInfo_trans: "sameButInfo a b \<Longrightarrow> sameButInfo b c \<Longrightarrow> sameButInfo a c"
  by (auto simp: sameButInfo_iff)

lemma sameButInfo_resume: "sameButInfo r (resumeUpdate now r)"
  by (simp add: sameButInfo_def resumeUpdate_def)

lemma resumeAll_shape:
  "\<exists>g. transactions (snd (resumeAll clock ts d)) = map g (transactions d)
       \<and> (\<forall>r. sameButInfo r (g r))"
proof (induction ts arbitrary: clock d)
  case Nil
  have "transactions (snd (resumeAll clock [] d)) = map (\<lambda>r. r) (transactions d)" by simp
  then show ?case using sameButInfo_refl by blast
next
  case (Cons t ts)
  obtain res d1 where r1: "resumeTransaction (clock 0) (transactionId t) d = (res, d1)"
    by (cases "resumeTransaction (clock 0) (transactionId t) d")
  from resumeTransaction_shape [of "clock 0" "transactionId t" d] r1
  obtain g1 where g1: "transactions d1 = map g1 (transactions d)"
    "\<forall>r. g1 r = r \<or> g1 r = resumeUpdate (clock 0) r" by auto
  have s1: "\<forall>r. sameButInfo r (g1 r)"
  proof
    fix r from g1(2) have "g1 r = r \<or> g1 r = resumeUpdate (clock 0) r" by blast
    then show "sameButInfo r (g1 r)" using sameButInfo_refl sameButInfo_resume by auto
  qed
  show ?case
  proof (cases res)
    case (Inl e)
    with r1 g1 s1 show ?thesis by auto
  next
    case (Inr x)
    from Cons.IH [of "\<lambda>i. clock (Suc i)" d1]
    obtain g2 where g2: "transactions (snd (resumeAll (\<lambda>i. clock (Suc i)) ts d1)) = map g2 (transactions d1)"
      "\<forall>r. sameButInfo r (g2 r)" by blast
    with g1 have "transactions (snd (resumeAll (\<lambda>i. clock (Suc i)) ts d1)) = map (g2 \<circ> g1) (transactions d)"
      by simp
    moreover have "\<forall>r. sameButInfo r ((g2 \<circ> g1) r)"
      using s1 g2(2) sameButInfo_trans by (simp, blast)
    ultimately show ?thesis using r1 Inr by auto
  qed
qed


lemma rowStep_refl: "rowStep r r"
  by (simp add: rowStep_def)

lemma rowStep_trans: "rowStep a b \<Longrightarrow> rowStep b c \<Longrightarrow> rowStep a c"
  by (auto simp: rowStep_def)

lemma rowStep_sameButInfo: "sameButInfo r r' \<Longrightarrow> rowStep r r'"
  by (auto simp: sameButInfo_iff rowStep_def)

lemma status_sameButInfo: "sameButInfo r r' \<Longrightarrow> status r' = status r"
  by (auto simp: sameButInfo_iff)

lemma rowStep_stop: "rowStep r (stopUpdate now s r)"
  by (simp add: rowStep_def stopUpdate_def)

lemma handleReconnection_shape:
  "\<exists>g. transactions (snd (handleReconnection clock cp d)) = map g (transactions d)
       \<and> (\<forall>r. sameButInfo r (g r))"
proof -
  have "snd (handleReconnection clock cp d) = snd (resumeAll clock (getActiveTransactions cp d) d)"
    by (simp add: handleReconnection_def handleReconnection_continue_def split: prod.splits option.splits)
  then show ?thesis using resumeAll_shape [of clock "getActiveTransactions cp d" d] by simp
qed

lemma createTx_rows:
  "transactions (snd (createTx c d)) = transactions d
   \<or> (\<exists>t. transactions (snd (createTx c d)) = transactions d @ [t] \<and> status t = ''active''
          \<and> cpId t = cpId c \<and> connectorId t = connectorId c)"
  by (simp add: createTx_def Let_def)

lemma startTransaction_rows:
  "transactions (snd (startTransaction pick c d)) = transactions d
   \<or> (activeRows (cpId c) (connectorId c) d = []
       \<and> (\<exists>t. transactions (snd (startTransaction pick c d)) = transactions d @ [t]
              \<and> status t = ''active'' \<and> cpId t = cpId c \<and> connectorId t = connectorId c))"
proof (cases "activeRows (cpId c) (connectorId c) d = []")
  case True
  then show ?thesis using createTx_rows [of c d] by (simp add: startTransaction_idle)
next
  case False
  then show ?thesis by (simp add: startTransaction_found)
qed

lemma charge_point_ops_rows:
  "transactions (registerChargePoint now r d) = transactions d"
  "transactions (snd (setChargePointStatus cp st d)) = transactions d"
  "transactions (snd (updateLastSeen now cp d)) = transactions d"
  by (simp_all add: registerChargePoint_def setChargePointStatus_def updateLastSeen_def updateCp_def)

lemma apply_op_shape:
  "\<exists>g ys. transactions (apply_op op d) = map g (transactions d) @ ys \<and> (\<forall>r. rowStep r (g r))"
proof -
  have same: "transactions d' = transactions d \<Longrightarrow>
      \<exists>g ys. transactions d' = map g (transactions d) @ ys \<and> (\<forall>r. rowStep r (g r))" for d'
  proof -
    assume "transactions d' = transactions d"
    then have "transactions d' = map (\<lambda>r. r) (transactions d) @ []" by simp
    then show ?thesis using rowStep_refl by blast
  qed
  have mapped: "\<exists>g. transactions d' = map g (transactions d) \<and> (\<forall>r. rowStep r (g r)) \<Longrightarrow>
      \<exists>g ys. transactions d' = map g (transactions d) @ ys \<and> (\<forall>r. rowStep r (g r))" for d'
  proof -
    assume "\<exists>g. transactions d' = map g (transactions d) \<and> (\<forall>r. rowStep r (g r))"
    then obtain g where "transactions d' = map g (transactions d) @ []" "\<forall>r. rowStep r (g r)"
      by auto
    then show ?thesis by blast
  qed
  show ?thesis
  proof (cases op)
    case (Register now r)
    then show ?thesis
      using same [of "registerChargePoint now r d"] charge_point_ops_rows(1) [of now r d] by simp
  next
    case (Start pick c)
    from startTransaction_rows [of pick c d] show ?thesis
    proof
      assume "transactions (snd (startTransaction pick c d)) = transactions d"
      with Start show ?thesis using same [of "snd (startTransaction pick c d)"] by simp
    next
      assume "activeRows (cpId c) (connectorId c) d = []
       \<and> (\<exists>t. transactions (snd (startTransaction pick c d)) = transactions d @ [t]
              \<and> status t = ''active'' \<and> cpId t = cpId c \<and> connectorId t = connectorId c)"
      then obtain t where "transactions (snd (startTransaction pick c d)) = transactions d @ [t]"
        by auto
      with Start have "transactions (apply_op op d) = map (\<lambda>r. r) (transactions d) @ [t]
          \<and> (\<forall>r. rowStep r ((\<lambda>r. r) r))"
        by (simp add: rowStep_refl)
      then show ?thesis by (intro exI)
    qed
  next
    case (Stop now s)
    from stopTransaction_shape [of now s d] obtain g where
      g: "transactions (snd (stopTransaction now s d)) = map g (transactions d)"
         "\<forall>r. g r = r \<or> g r = stopUpdate now s r" by blast
    have "\<forall>r. rowStep r (g r)"
    proof
      fix r from g(2) have "g r = r \<or> g r = stopUpdate now s r" by blast
      then show "rowStep r (g r)" using rowStep_refl rowStep_stop by auto
    qed
    with g(1) Stop show ?thesis using mapped [of "snd (stopTransaction now s d)"] by auto
  next
    case (Resume now tid)
    from resumeTransaction_shape [of now tid d] obtain g where
      g: "transactions (snd (resumeTransaction now tid d)) = map g (transactions d)"
         "\<forall>r. g r = r \<or> g r = resumeUpdate now r" by blast
    have "\<forall>r. rowStep r (g r)"
    proof
      fix r from g(2) have "g r = r \<or> g r = resumeUpdate now r" by blast
      then show "rowStep r (g r)"
        using rowStep_refl rowStep_sameButInfo [OF sameButInfo_resume] by auto
    qed
    with g(1) Resume show ?thesis using mapped [of "snd (resumeTransaction now tid d)"] by auto
  next
    case (Reconnect clock cp)
    from handleReconnection_shape [of clock cp d] obtain g where
      g: "transactions (snd (handleReconnection clock cp d)) = map g (transactions d)"
         "\<forall>r. sameButInfo r (g r)" by blast
    then have "\<forall>r. rowStep r (g r)" using rowStep_sameButInfo by blast
    with g(1) Reconnect show ?thesis
      using mapped [of "snd (handleReconnection clock cp d)"] by auto
  next
    case (SetStatus cp st)
    then show ?thesis
      using same [of "snd (setChargePointStatus cp st d)"] charge_point_ops_rows(2) [of cp st d]
      by simp
  next
    case (LastSeen now cp)
    then show ?thesis
      using same [of "snd (updateLastSeen now cp d)"] charge_point_ops_rows(3) [of now cp d]
      by simp
  qed
qed

lemma exclusive_append:
  assumes "exclusive d" "activeRows (cpId t) (connectorId t) d = []"
    "transactions d' = transactions d @ [t]"
  shows "exclusive d'"
proof -
  have "length (activeRows cp c d') \<le> 1" for cp c
  proof (cases "cp = cpId t \<and> c = connectorId t")
    case True
    with assms(2,3) show ?thesis by (simp add: activeRows_def)
  next
    case False
    then have "\<not> activeOnConnector cp c t" by (auto simp: activeOnConnector_def)
    with assms(3) have "activeRows cp c d' = activeRows cp c d" by (simp add: activeRows_def)
    with assms(1) show ?thesis by (simp add: exclusive_pairs)
  qed
  then show ?thesis by (simp add: exclusive_pairs)
qed

lemma exclusive_apply_op:
  assumes "exclusive d"
  shows "exclusive (apply_op op d)"
proof (cases op)
  case (Start pick c)
  from startTransaction_rows [of pick c d] show ?thesis
  proof
    assume "transactions (snd (startTransaction pick c d)) = transactions d"
    with assms Start show ?thesis
      using exclusive_same [of "snd (startTransaction pick c d)" d] by simp
  next
    assume "activeRows (cpId c) (connectorId c) d = []
       \<and> (\<exists>t. transactions (snd (startTransaction pick c d)) = transactions d @ [t]
              \<and> status t = ''active'' \<and> cpId t = cpId c \<and> connectorId t = connectorId c)"
    then obtain t where e: "activeRows (cpId c) (connectorId c) d = []"
      and t: "transactions (snd (startTransaction pick c d)) = transactions d @ [t]"
        "cpId t = cpId c" "connectorId t = connectorId c" by auto
    from e t have "activeRows (cpId t) (connectorId t) d = []" by simp
    with assms Start t(1) show ?thesis
      using exclusive_append [of d t "snd (startTransaction pick c d)"] by simp
  qed
next
  case (Register now r)
  with assms show ?thesis
    using exclusive_same [of "registerChargePoint now r d" d] charge_point_ops_rows(1) [of now r d]
    by simp
next
  case (SetStatus cp st)
  with assms show ?thesis
    using exclusive_same [of "snd (setChargePointStatus cp st d)" d]
      charge_point_ops_rows(2) [of cp st d]
    by simp
next
  case (LastSeen now cp)
  with assms show ?thesis
    using exclusive_same [of "snd (updateLastSeen now cp d)" d]
      charge_point_ops_rows(3) [of now cp d]
    by simp
next
  case (Stop now s)
  from stopTransaction_shape [of now s d] obtain g where
    g: "transactions (snd (stopTransaction now s d)) = map g (transactions d)"
       "\<forall>r. g r = r \<or> g r = stopUpdate now s r" by blast
  have "cpId (g r) = cpId r \<and> connectorId (g r) = connectorId r
          \<and> (status (g r) = ''active'' \<longrightarrow> status r = ''active'')" for r
  proof -
    from g(2) have "g r = r \<or> g r = stopUpdate now s r" by blast
    then show ?thesis by (auto simp: stopUpdate_def)
  qed
  with assms g(1) Stop show ?thesis using exclusive_map [of d "apply_op op d" g] by simp
next
  case (Resume now tid)
  from resumeTransaction_shape [of now tid d] obtain g where
    g: "transactions (snd (resumeTransaction now tid d)) = map g (transactions d)"
       "\<forall>r. g r = r \<or> g r = resumeUpdate now r" by blast
  have "cpId (g r) = cpId r \<and> connectorId (g r) = connectorId r
          \<and> (status (g r) = ''active'' \<longrightarrow> status r = ''active'')" for r
  proof -
    from g(2) have "g r = r \<or> g r = resumeUpdate now r" by blast
    then show ?thesis by (auto simp: resumeUpdate_def)
  qed
  with assms g(1) Resume show ?thesis using exclusive_map [of d "apply_op op d" g] by simp
next
  case (Reconnect clock cp)
  from handleReconnection_shape [of clock cp d] obtain g where
    g: "transactions (snd (handleReconnection clock cp d)) = map g (transactions d)"
       "\<forall>r. sameButInfo r (g r)" by blast
  have "cpId (g r) = cpId r \<and> connectorId (g r) = connectorId r
          \<and> (status (g r) = ''active'' \<longrightarrow> status r = ''active'')" for r
  proof -
    from g(2) have "sameButInfo r (g r)" by blast
    then show ?thesis by (auto simp: sameButInfo_iff)
  qed
  with assms g(1) Reconnect show ?thesis using exclusive_map [of d "apply_op op d" g] by simp
qed

lemma exclusive_run: "exclusive d \<Longrightarrow> exclusive (run ops d)"
  unfolding run_def by (induction ops arbitrary: d) (simp_all add: exclusive_apply_op)

lemma exclusive_emptyDb: "exclusive emptyDb"
  by (simp add: exclusive_def emptyDb_def)


lemma startTransaction_creates_only_idle:
  assumes "transactions (snd (startTransaction pick c d)) \<noteq> transactions d"
  shows "activeRows (cpId c) (connectorId c) d = []
         \<and> (\<exists>t'. transactions (snd (startTransaction pick c d)) = transactions d @ [t']
                \<and> status t' = ''active'' \<and> cpId t' = cpId c \<and> connectorId t' = connectorId c)"
  using assms startTransaction_rows [of pick c d] by blast

lemma ex_session_rows:
  "map transactionId (transactions (run ex_session emptyDb)) = [1, 2]
   \<and> map idTag (transactions (run ex_session emptyDb)) = [''TAG1'', ''TAG2'']
   \<and> map status (transactions (run ex_session emptyDb)) = [''completed'', ''active'']"
  by (simp add: run_def ex_session_def emptyDb_def ex_register1_def ex_startTag1_def
      ex_startTag2_def ex_stopFirst_def registerChargePoint_def startTransaction_def
      startTransaction_continue_def findFirst_def activeOnConnector_def createTx_def Let_def
      resumeTransaction_def findUnique_def updateTx_def stopTransaction_def resolveStop_def
      stopUpdate_def resumeUpdate_def pickFirst_def pickLast_def int4_def)

section \<open>Exclusivity\<close>

text \<open>
  C1 (exclusivity) fails in the code for two overlapping starts. On the idle connector 1
  of the registered charge point \<open>CP1\<close>, two \<open>startTransaction\<close> calls whose lookups both
  run before either insert both find no active transaction and both insert: each call
  returns its new transaction, and the store then holds the two active transactions 1
  and 2 on that one connector. Nothing in the persistence layer refuses the second
  insert, although the repository's test of this race (\<open>error-scenarios.test.ts\<close>,
  \<open>should handle race condition in transaction creation\<close>) expects \<open>create\<close> to fail.
\<close>

theorem overlapped_starts_two_active:
  "activeRows ''CP1'' 1 ex_idle = []
   \<and> startTransaction_overlapped pickFirst ex_startTag1 pickLast ex_startTag2 ex_idle
       = (Inr ex_tx1, Inr ex_txTag2, ex_twoActive)
   \<and> activeRows ''CP1'' 1 ex_twoActive = [ex_tx1, ex_txTag2]
   \<and> transactionId ex_tx1 = 1 \<and> transactionId ex_txTag2 = 2
   \<and> status ex_tx1 = ''active'' \<and> status ex_txTag2 = ''active''
   \<and> length (activeRows ''CP1'' 1 ex_twoActive) = 2"
  by (simp add: overlapped_on_idle ex_startTag1_fields ex_startTag2_fields ex_idle_rows_on_1
      ex_first_created ex_second_created ex_twoActive_rows_on_1 ex_tx1_fields ex_txTag2_fields)

text \<open>
  X2 (exclusivity of sequential runs). When the operations run one after
  another, each to completion, every state reached from the empty store has at most one
  active transaction per \<open>(cpId, connectorId)\<close>, every operation keeps it so, and
  \<open>startTransaction\<close> adds a row only when the connector has no active transaction; the
  row it adds is active on that connector.
\<close>

theorem exclusive_sequential:
  "exclusive (run ops emptyDb)
   \<and> (exclusive d \<longrightarrow> exclusive (apply_op op d))
   \<and> (transactions (snd (startTransaction pick c d)) \<noteq> transactions d
        \<longrightarrow> activeRows (cpId c) (connectorId c) d = []
            \<and> (\<exists>t'. transactions (snd (startTransaction pick c d)) = transactions d @ [t']
                   \<and> status t' = ''active'' \<and> cpId t' = cpId c
                   \<and> connectorId t' = connectorId c))"
proof (intro conjI impI)
  show "exclusive (run ops emptyDb)"
    by (rule exclusive_run [OF exclusive_emptyDb])
next
  assume "exclusive d" then show "exclusive (apply_op op d)" by (rule exclusive_apply_op)
next
  assume h: "transactions (snd (startTransaction pick c d)) \<noteq> transactions d"
  from startTransaction_creates_only_idle [OF h]
  show "activeRows (cpId c) (connectorId c) d = []" by blast
  from startTransaction_creates_only_idle [OF h]
  show "\<exists>t'. transactions (snd (startTransaction pick c d)) = transactions d @ [t']
                   \<and> status t' = ''active'' \<and> cpId t' = cpId c
                   \<and> connectorId t' = connectorId c" by blast
qed

theorem exclusive_sequential_witness:
  "exclusive (run ex_session emptyDb)
   \<and> map status (transactions (run ex_session emptyDb)) = [''completed'', ''active'']
   \<and> exclusive (apply_op (Start pickLast ex_startTag2) ex_active)
   \<and> activeRows ''CP1'' 1 ex_idle = []
   \<and> (\<exists>t'. transactions (snd (startTransaction pickFirst ex_startTag1 ex_idle)) = [t']
          \<and> status t' = ''active'')"
proof -
  have run: "exclusive (run ex_session emptyDb)"
    using exclusive_sequential [of ex_session, THEN conjunct1] .
  have ex: "exclusive ex_active"
    by (simp add: exclusive_def ex_active_rows activeRows_def)
  have step: "exclusive (apply_op (Start pickLast ex_startTag2) ex_active)"
    using ex exclusive_sequential [of _ ex_active "Start pickLast ex_startTag2",
        THEN conjunct2, THEN conjunct1] by blast
  have differs: "transactions (snd (startTransaction pickFirst ex_startTag1 ex_idle))
      \<noteq> transactions ex_idle"
    by (simp add: startTransaction_idle ex_startTag1_fields ex_idle_rows_on_1 ex_first_created
        ex_idle_rows)
  have created: "activeRows ''CP1'' 1 ex_idle = []
      \<and> (\<exists>t'. transactions (snd (startTransaction pickFirst ex_startTag1 ex_idle)) = [t']
             \<and> status t' = ''active'')"
    using differs exclusive_sequential [of _ ex_idle _ pickFirst ex_startTag1,
        THEN conjunct2, THEN conjunct2]
    by (simp add: ex_idle_rows ex_startTag1_fields) blast
  from run ex_session_rows step created show ?thesis by blast
qed

section \<open>Status of a transaction\<close>

lemma run_shape:
  "\<exists>g ys. transactions (run ops d) = map g (transactions d) @ ys \<and> (\<forall>r. rowStep r (g r))"
proof (induction ops arbitrary: d)
  case Nil
  have "transactions (run [] d) = map (\<lambda>r. r) (transactions d) @ []
          \<and> (\<forall>r. rowStep r ((\<lambda>r. r) r))"
    by (simp add: run_def rowStep_refl)
  then show ?case by (intro exI)
next
  case (Cons op ops)
  from apply_op_shape [of op d] obtain g1 ys1 where
    1: "transactions (apply_op op d) = map g1 (transactions d) @ ys1" "\<forall>r. rowStep r (g1 r)"
    by blast
  from Cons.IH [of "apply_op op d"] obtain g2 ys2 where
    2: "transactions (run ops (apply_op op d)) = map g2 (transactions (apply_op op d)) @ ys2"
       "\<forall>r. rowStep r (g2 r)"
    by blast
  have "run (op # ops) d = run ops (apply_op op d)" by (simp add: run_def)
  with 1 2 have "transactions (run (op # ops) d)
      = map (\<lambda>r. g2 (g1 r)) (transactions d) @ (map g2 ys1 @ ys2)" by simp
  moreover have "\<forall>r. rowStep r ((\<lambda>r. g2 (g1 r)) r)"
    using 1(2) 2(2) rowStep_trans by blast
  ultimately have "transactions (run (op # ops) d)
      = map (\<lambda>r. g2 (g1 r)) (transactions d) @ (map g2 ys1 @ ys2)
      \<and> (\<forall>r. rowStep r ((\<lambda>r. g2 (g1 r)) r))" by blast
  then show ?case by (intro exI)
qed

lemma ex_stoppedOnce_rows:
  "transactions ex_stoppedOnce =
     [ex_tx1\<lparr>meterStop := Some 2000, stopTimestamp := Some 900, stopReason := Some ''Local'',
             status := ''completed'',
             additionalInfo := Some [(''transactionId'', JNum 1), (''cpId'', JStr ''CP1''),
                                     (''meterStop'', JNum 2000)]\<rparr>]"
  by (simp add: ex_stoppedOnce_def stopTransaction_def resolveStop_def ex_stopFirst_def
      updateTx_def findUnique_def ex_active_rows ex_tx1_fields stopUpdate_def
      stopReasonOrLocal_def jsonOfStop_def)

lemma stop_at_index:
  assumes res: "resolveStop s d = Inr k"
    and keys: "distinct (map transactionId (transactions d))"
    and i: "i < length (transactions d)" "transactionId (transactions d ! i) = k"
  shows "stopTransaction now s d =
     (Inr (stopUpdate now s (transactions d ! i)),
      d\<lparr>transactions := (transactions d)[i := stopUpdate now s (transactions d ! i)]\<rparr>)"
proof -
  from i(1) have mem: "transactions d ! i \<in> set (transactions d)" by (rule nth_mem)
  have "map (\<lambda>v. if transactionId v = k then (\<lambda>_. stopUpdate now s (transactions d ! i)) v else v)
          (transactions d)
      = (transactions d)[i := (\<lambda>_. stopUpdate now s (transactions d ! i)) (transactions d ! i)]"
    using keys i by (rule map_update_at)
  then show ?thesis
    using stopTransaction_effect [OF res keys mem i(2), of now] by simp
qed

lemma lookup_stop_one_row:
  assumes noId: "stop_transactionId s = None \<or> stop_transactionId s = Some 0"
    and keys: "distinct (map transactionId (transactions d))"
  shows "transactions (snd (stopTransaction now s d)) = transactions d
     \<or> (\<exists>i < length (transactions d). status (transactions d ! i) = ''active''
           \<and> transactions (snd (stopTransaction now s d))
               = (transactions d)[i := stopUpdate now s (transactions d ! i)])"
proof (cases "findFirstDesc (stopWhere s) d")
  case None
  with noId have "resolveStop s d = Inl (Error notFoundToStop)"
    by (auto simp: resolveStop_def lookupStop_def)
  then show ?thesis by (simp add: stopTransaction_def)
next
  case (Some t)
  from findFirstDesc_Some [OF Some] have t: "t \<in> set (transactions d)" "status t = ''active''"
    by (auto simp: stopWhere_def)
  from Some noId have res: "resolveStop s d = Inr (transactionId t)"
    by (auto simp: resolveStop_def lookupStop_def)
  from t(1) obtain i where i: "i < length (transactions d)" "transactions d ! i = t"
    by (auto simp: in_set_conv_nth)
  from i(2) have "transactionId (transactions d ! i) = transactionId t" by simp
  from stop_at_index [OF res keys i(1) this, of now]
  have "transactions (snd (stopTransaction now s d))
      = (transactions d)[i := stopUpdate now s (transactions d ! i)]"
    by simp
  with i t(2) show ?thesis by blast
qed

text \<open>
  C6 (status monotonicity), as the code has it. Over any run of operations from any
  store, the rows that were there stay in place with their keys, and the status of each
  is what it was or \<open>completed\<close>: a completed transaction is never active again. A
  resume changes no status. A stop that carries no \<open>transactionId\<close> (or \<open>0\<close>) and so
  resolves by lookup either leaves every row as it was, or rewrites exactly one row, which
  was active and is completed by it; every other row, active or not, is left as it was.
  A stop that carries the \<open>transactionId\<close> (not \<open>0\<close>) of a transaction that is already
  completed succeeds again: in that row it sets \<open>stopTimestamp\<close> to the time of the call,
  \<open>stopReason\<close> to the given reason (\<open>Local\<close> when none or the empty one is given),
  \<open>additionalInfo\<close> to the request, and \<open>meterStop\<close> to the given reading when there is
  one; the status stays \<open>completed\<close> and no other row changes.
\<close>

theorem status_monotone:
  "length (transactions d) \<le> length (transactions (run ops d))
   \<and> (\<forall>i < length (transactions d).
         transactionId (transactions (run ops d) ! i) = transactionId (transactions d ! i)
         \<and> (status (transactions (run ops d) ! i) = status (transactions d ! i)
              \<or> status (transactions (run ops d) ! i) = ''completed''))
   \<and> map status (transactions (snd (resumeTransaction now tid d))) = map status (transactions d)
   \<and> ((stop_transactionId s = None \<or> stop_transactionId s = Some 0)
        \<and> distinct (map transactionId (transactions d))
       \<longrightarrow> transactions (snd (stopTransaction now s d)) = transactions d
           \<or> (\<exists>i < length (transactions d). status (transactions d ! i) = ''active''
                 \<and> (\<exists>r'. transactions (snd (stopTransaction now s d)) = (transactions d)[i := r']
                         \<and> status r' = ''completed'')))
   \<and> (stop_transactionId s = Some k \<and> k \<noteq> 0
        \<and> distinct (map transactionId (transactions d))
        \<and> j < length (transactions d) \<and> transactionId (transactions d ! j) = k
        \<and> status (transactions d ! j) = ''completed''
       \<longrightarrow> (\<exists>r'. stopTransaction now s d = (Inr r', d\<lparr>transactions := (transactions d)[j := r']\<rparr>)
                 \<and> status r' = ''completed''
                 \<and> transactionId r' = k
                 \<and> stopTimestamp r' = Some now
                 \<and> stopReason r' = Some (stopReasonOrLocal (stop_stopReason s))
                 \<and> additionalInfo r' = Some (jsonOfStop s)
                 \<and> meterStop r' = (case stop_meterStop s of
                                     None \<Rightarrow> meterStop (transactions d ! j)
                                   | Some m \<Rightarrow> Some m)))"
proof -
  from run_shape [of ops d] obtain g ys where
    g: "transactions (run ops d) = map g (transactions d) @ ys" "\<forall>r. rowStep r (g r)" by blast
  have len: "length (transactions d) \<le> length (transactions (run ops d))"
    using g(1) by simp
  have rows: "\<forall>i < length (transactions d).
         transactionId (transactions (run ops d) ! i) = transactionId (transactions d ! i)
         \<and> (status (transactions (run ops d) ! i) = status (transactions d ! i)
              \<or> status (transactions (run ops d) ! i) = ''completed'')"
  proof (intro allI impI)
    fix i assume i: "i < length (transactions d)"
    then have "transactions (run ops d) ! i = g (transactions d ! i)"
      using g(1) by (simp add: nth_append)
    moreover from g(2) have "rowStep (transactions d ! i) (g (transactions d ! i))" by blast
    ultimately show "transactionId (transactions (run ops d) ! i) = transactionId (transactions d ! i)
         \<and> (status (transactions (run ops d) ! i) = status (transactions d ! i)
              \<or> status (transactions (run ops d) ! i) = ''completed'')"
      by (simp add: rowStep_def)
  qed
  have resume: "map status (transactions (snd (resumeTransaction now tid d))) = map status (transactions d)"
  proof -
    from resumeTransaction_shape [of now tid d] obtain h where
      h: "transactions (snd (resumeTransaction now tid d)) = map h (transactions d)"
         "\<forall>r. h r = r \<or> h r = resumeUpdate now r" by blast
    have "status (h r) = status r" for r
    proof -
      from h(2) have "h r = r \<or> h r = resumeUpdate now r" by blast
      then show ?thesis by (auto simp: resumeUpdate_def)
    qed
    with h(1) show ?thesis by simp
  qed
  have stop: "(stop_transactionId s = None \<or> stop_transactionId s = Some 0)
        \<and> distinct (map transactionId (transactions d))
       \<longrightarrow> transactions (snd (stopTransaction now s d)) = transactions d
           \<or> (\<exists>i < length (transactions d). status (transactions d ! i) = ''active''
                 \<and> (\<exists>r'. transactions (snd (stopTransaction now s d)) = (transactions d)[i := r']
                         \<and> status r' = ''completed''))"
  proof
    assume h: "(stop_transactionId s = None \<or> stop_transactionId s = Some 0)
        \<and> distinct (map transactionId (transactions d))"
    then have "transactions (snd (stopTransaction now s d)) = transactions d
     \<or> (\<exists>i < length (transactions d). status (transactions d ! i) = ''active''
           \<and> transactions (snd (stopTransaction now s d))
               = (transactions d)[i := stopUpdate now s (transactions d ! i)])"
      using lookup_stop_one_row [of s d now] by blast
    then show "transactions (snd (stopTransaction now s d)) = transactions d
           \<or> (\<exists>i < length (transactions d). status (transactions d ! i) = ''active''
                 \<and> (\<exists>r'. transactions (snd (stopTransaction now s d)) = (transactions d)[i := r']
                         \<and> status r' = ''completed''))"
    proof
      assume "transactions (snd (stopTransaction now s d)) = transactions d"
      then show ?thesis by (rule disjI1)
    next
      assume "\<exists>i < length (transactions d). status (transactions d ! i) = ''active''
           \<and> transactions (snd (stopTransaction now s d))
               = (transactions d)[i := stopUpdate now s (transactions d ! i)]"
      then obtain i where i: "i < length (transactions d)" "status (transactions d ! i) = ''active''"
        "transactions (snd (stopTransaction now s d))
           = (transactions d)[i := stopUpdate now s (transactions d ! i)]"
        by blast
      have "status (stopUpdate now s (transactions d ! i)) = ''completed''"
        by (simp add: stopUpdate_def)
      with i(3) have "\<exists>r'. transactions (snd (stopTransaction now s d)) = (transactions d)[i := r']
                         \<and> status r' = ''completed''" by blast
      with i(1,2) show ?thesis by blast
    qed
  qed
  have again: "stop_transactionId s = Some k \<and> k \<noteq> 0
        \<and> distinct (map transactionId (transactions d))
        \<and> j < length (transactions d) \<and> transactionId (transactions d ! j) = k
        \<and> status (transactions d ! j) = ''completed''
       \<longrightarrow> (\<exists>r'. stopTransaction now s d = (Inr r', d\<lparr>transactions := (transactions d)[j := r']\<rparr>)
                 \<and> status r' = ''completed''
                 \<and> transactionId r' = k
                 \<and> stopTimestamp r' = Some now
                 \<and> stopReason r' = Some (stopReasonOrLocal (stop_stopReason s))
                 \<and> additionalInfo r' = Some (jsonOfStop s)
                 \<and> meterStop r' = (case stop_meterStop s of
                                     None \<Rightarrow> meterStop (transactions d ! j)
                                   | Some m \<Rightarrow> Some m))"
  proof
    assume h: "stop_transactionId s = Some k \<and> k \<noteq> 0
        \<and> distinct (map transactionId (transactions d))
        \<and> j < length (transactions d) \<and> transactionId (transactions d ! j) = k
        \<and> status (transactions d ! j) = ''completed''"
    then have res: "resolveStop s d = Inr k" by (simp add: resolveStop_def)
    from h have keys: "distinct (map transactionId (transactions d))"
      and j: "j < length (transactions d)" "transactionId (transactions d ! j) = k"
      by simp_all
    let ?r = "stopUpdate now s (transactions d ! j)"
    from stop_at_index [OF res keys j, of now]
    have "stopTransaction now s d = (Inr ?r, d\<lparr>transactions := (transactions d)[j := ?r]\<rparr>)" .
    moreover have "status ?r = ''completed''" "transactionId ?r = k" "stopTimestamp ?r = Some now"
      "stopReason ?r = Some (stopReasonOrLocal (stop_stopReason s))"
      "additionalInfo ?r = Some (jsonOfStop s)"
      "meterStop ?r = (case stop_meterStop s of
                         None \<Rightarrow> meterStop (transactions d ! j) | Some m \<Rightarrow> Some m)"
      using j(2) by (simp_all add: stopUpdate_def)
    ultimately show "\<exists>r'. stopTransaction now s d = (Inr r', d\<lparr>transactions := (transactions d)[j := r']\<rparr>)
                 \<and> status r' = ''completed''
                 \<and> transactionId r' = k
                 \<and> stopTimestamp r' = Some now
                 \<and> stopReason r' = Some (stopReasonOrLocal (stop_stopReason s))
                 \<and> additionalInfo r' = Some (jsonOfStop s)
                 \<and> meterStop r' = (case stop_meterStop s of
                                     None \<Rightarrow> meterStop (transactions d ! j)
                                   | Some m \<Rightarrow> Some m)"
      by (intro exI [of _ ?r] conjI)
  qed
  from len rows resume stop again show ?thesis by (intro conjI)
qed

theorem status_monotone_witness:
  "status (transactions ex_stoppedOnce ! 0) = ''completed''
   \<and> status (transactions (run ex_later ex_stoppedOnce) ! 0) = ''completed''
   \<and> map status (transactions (snd (resumeTransaction 300 1 ex_active))) = [''active'']
   \<and> transactions (snd (stopTransaction 1100 ex_stopByCp ex_stoppedOnce))
       = transactions ex_stoppedOnce
   \<and> (\<exists>r'. transactions (snd (stopTransaction 1100 ex_stopByCp ex_active)) = [r']
          \<and> status r' = ''completed'')
   \<and> (\<exists>r'. stopTransaction 950 ex_stopAgain ex_stoppedOnce
             = (Inr r', ex_stoppedOnce\<lparr>transactions := [r']\<rparr>)
          \<and> status r' = ''completed'' \<and> stopTimestamp r' = Some 950
          \<and> stopReason r' = Some ''Remote'' \<and> meterStop r' = Some 9999)"
proof -
  have completed: "status (transactions ex_stoppedOnce ! 0) = ''completed''"
    by (simp add: ex_stoppedOnce_rows)
  have len: "0 < length (transactions ex_stoppedOnce)"
    by (simp add: ex_stoppedOnce_rows)
  have keys: "distinct (map transactionId (transactions ex_stoppedOnce))"
    by (simp add: ex_stoppedOnce_rows)
  have later: "status (transactions (run ex_later ex_stoppedOnce) ! 0) = ''completed''"
    using completed len
      status_monotone [of ex_stoppedOnce ex_later, THEN conjunct2, THEN conjunct1, rule_format, of 0]
    by auto
  have resume: "map status (transactions (snd (resumeTransaction 300 1 ex_active))) = [''active'']"
    using status_monotone [of ex_active _ 300 1, THEN conjunct2, THEN conjunct2, THEN conjunct1]
    by (simp add: ex_active_rows ex_tx1_fields)
  have kept: "transactions (snd (stopTransaction 1100 ex_stopByCp ex_stoppedOnce))
       = transactions ex_stoppedOnce"
    using keys
      status_monotone [of ex_stoppedOnce _ 1100 _ ex_stopByCp,
        THEN conjunct2, THEN conjunct2, THEN conjunct2, THEN conjunct1]
    by (simp add: ex_stopByCp_def) (simp add: ex_stoppedOnce_rows)
  have one: "\<exists>r'. transactions (snd (stopTransaction 1100 ex_stopByCp ex_active)) = [r']
          \<and> status r' = ''completed''"
  proof -
    from status_monotone [of ex_active _ 1100 _ ex_stopByCp,
        THEN conjunct2, THEN conjunct2, THEN conjunct2, THEN conjunct1]
    have "transactions (snd (stopTransaction 1100 ex_stopByCp ex_active)) = [ex_tx1]
       \<or> (\<exists>r'. transactions (snd (stopTransaction 1100 ex_stopByCp ex_active)) = [r']
              \<and> status r' = ''completed'')"
      by (simp add: ex_stopByCp_def ex_active_rows ex_tx1_fields)
    moreover have "transactions (snd (stopTransaction 1100 ex_stopByCp ex_active)) \<noteq> [ex_tx1]"
      by (simp add: stopTransaction_def resolveStop_def lookupStop_def findFirstDesc_def
          findManyDesc_def stopWhere_def ex_stopByCp_def ex_active_rows ex_tx1_fields
          updateTx_def findUnique_def stopUpdate_def)
         (simp add: ex_tx1_def)
    ultimately show ?thesis by blast
  qed
  have again: "\<exists>r'. stopTransaction 950 ex_stopAgain ex_stoppedOnce
             = (Inr r', ex_stoppedOnce\<lparr>transactions := [r']\<rparr>)
          \<and> status r' = ''completed'' \<and> stopTimestamp r' = Some 950
          \<and> stopReason r' = Some ''Remote'' \<and> meterStop r' = Some 9999"
  proof -
    from status_monotone [of ex_stoppedOnce _ 950 _ ex_stopAgain 1 0,
        THEN conjunct2, THEN conjunct2, THEN conjunct2, THEN conjunct2]
    obtain r' where r': "stopTransaction 950 ex_stopAgain ex_stoppedOnce
             = (Inr r', ex_stoppedOnce\<lparr>transactions := (transactions ex_stoppedOnce)[0 := r']\<rparr>)
          \<and> status r' = ''completed'' \<and> transactionId r' = 1 \<and> stopTimestamp r' = Some 950
          \<and> stopReason r' = Some (stopReasonOrLocal (stop_stopReason ex_stopAgain))
          \<and> additionalInfo r' = Some (jsonOfStop ex_stopAgain)
          \<and> meterStop r' = (case stop_meterStop ex_stopAgain of
                               None \<Rightarrow> meterStop (transactions ex_stoppedOnce ! 0)
                             | Some m \<Rightarrow> Some m)"
      by (simp add: ex_stopAgain_def) (auto simp: ex_stoppedOnce_rows ex_tx1_fields)
    then have "stopTransaction 950 ex_stopAgain ex_stoppedOnce
             = (Inr r', ex_stoppedOnce\<lparr>transactions := [r']\<rparr>)
          \<and> status r' = ''completed'' \<and> stopTimestamp r' = Some 950
          \<and> stopReason r' = Some ''Remote'' \<and> meterStop r' = Some 9999"
      by (simp add: ex_stoppedOnce_rows ex_stopAgain_def stopReasonOrLocal_def)
    then show ?thesis by (rule exI)
  qed
  from completed later resume kept one again show ?thesis by (intro conjI)
qed

text \<open>
  C6 as stated fails where it says that no second stop can complete a transaction again:
  a stop by explicit \<open>transactionId\<close> does not look at the status. On the store where
  transaction 1 is completed (meter 2000, stopped at 900), a second stop with id 1
  succeeds and rewrites the meter reading, the stop time and the reason; the status
  stays \<open>completed\<close>.
\<close>

theorem second_stop_counterexample:
  "map status (transactions ex_stoppedOnce) = [''completed'']
   \<and> map meterStop (transactions ex_stoppedOnce) = [Some 2000]
   \<and> map stopTimestamp (transactions ex_stoppedOnce) = [Some 900]
   \<and> \<not> isl (fst (stopTransaction 950 ex_stopAgain ex_stoppedOnce))
   \<and> map status (transactions (snd (stopTransaction 950 ex_stopAgain ex_stoppedOnce)))
       = [''completed'']
   \<and> map meterStop (transactions (snd (stopTransaction 950 ex_stopAgain ex_stoppedOnce)))
       = [Some 9999]
   \<and> map stopTimestamp (transactions (snd (stopTransaction 950 ex_stopAgain ex_stoppedOnce)))
       = [Some 950]
   \<and> map stopReason (transactions (snd (stopTransaction 950 ex_stopAgain ex_stoppedOnce)))
       = [Some ''Remote'']"
  by (simp add: ex_stoppedOnce_rows stopTransaction_def resolveStop_def ex_stopAgain_def
      updateTx_def findUnique_def ex_tx1_fields stopUpdate_def stopReasonOrLocal_def)

section \<open>Flattening meter values\<close>

lemma concat_nth_offset:
  "i < length xss \<Longrightarrow> k < length (xss ! i)
   \<Longrightarrow> concat xss ! (sum_list (map length (take i xss)) + k) = xss ! i ! k"
proof (induction xss arbitrary: i)
  case Nil
  then show ?case by simp
next
  case (Cons xs xss)
  show ?case
  proof (cases i)
    case 0
    with Cons.prems show ?thesis by (simp add: nth_append)
  next
    case (Suc i')
    with Cons.prems have "i' < length xss" "k < length (xss ! i')" by simp_all
    from Cons.IH [OF this] Suc show ?thesis by (simp add: nth_append add.assoc)
  qed
qed

lemma flatten_length:
  "length (flattenMeterValues mvs) = sum_list (map (\<lambda>mv. length (mv_sampledValue mv)) mvs)"
  by (simp add: flattenMeterValues_def length_concat comp_def)

lemma flatten_nth:
  assumes "i < length mvs" "k < length (mv_sampledValue (mvs ! i))"
  shows "flattenMeterValues mvs ! (sum_list (map (\<lambda>mv. length (mv_sampledValue mv)) (take i mvs)) + k)
           = flatReading (mvs ! i) (mv_sampledValue (mvs ! i) ! k)"
proof -
  let ?xss = "map (\<lambda>mv. map (flatReading mv) (mv_sampledValue mv)) mvs"
  have len: "map length (take i ?xss) = map (\<lambda>mv. length (mv_sampledValue mv)) (take i mvs)"
    by (simp add: take_map comp_def)
  from assms have "i < length ?xss" "k < length (?xss ! i)" by simp_all
  from concat_nth_offset [OF this] assms len show ?thesis
    by (simp add: flattenMeterValues_def)
qed

lemma ex_meterValues_entries:
  "req_meterValue ex_meterValues = [ex_entry1, ex_entry2]"
  "length (mv_sampledValue ex_entry1) = 2" "length (mv_sampledValue ex_entry2) = 1"
  "mv_timestamp ex_entry1 = ''2024-01-01T10:00:00Z''"
  "mv_timestamp ex_entry2 = ''2024-01-01T10:05:00Z''"
  by (simp_all add: ex_meterValues_def ex_entry1_def ex_entry2_def)

text \<open>
  C7 (MeterValues flattening). On a validated payload the handler adds exactly one job to
  the queue, for the connection's \<open>cpId\<close> and the payload's connector and transaction.
  Its readings are as many as there are (entry, sampled value) pairs, and the reading at
  the position of the pair \<open>(i, k)\<close> (the sampled values of the entries before \<open>i\<close>, then
  \<open>k\<close>) has the timestamp of entry \<open>i\<close> and the value, measurand, phase and unit of the
  \<open>k\<close>-th sampled value of that entry.
\<close>

theorem meter_values_flattened:
  "\<exists>j. handleMeterValues cp v q = q @ [j]
       \<and> job_cpId j = cp \<and> job_connectorId j = req_connectorId v
       \<and> job_transactionId j = req_transactionId v
       \<and> length (job_meterValues j)
            = sum_list (map (\<lambda>mv. length (mv_sampledValue mv)) (req_meterValue v))
       \<and> (\<forall>i < length (req_meterValue v). \<forall>k < length (mv_sampledValue (req_meterValue v ! i)).
             r_timestamp (job_meterValues j
                 ! (sum_list (map (\<lambda>mv. length (mv_sampledValue mv)) (take i (req_meterValue v))) + k))
               = mv_timestamp (req_meterValue v ! i)
             \<and> r_value (job_meterValues j
                 ! (sum_list (map (\<lambda>mv. length (mv_sampledValue mv)) (take i (req_meterValue v))) + k))
               = sv_value (mv_sampledValue (req_meterValue v ! i) ! k)
             \<and> r_measurand (job_meterValues j
                 ! (sum_list (map (\<lambda>mv. length (mv_sampledValue mv)) (take i (req_meterValue v))) + k))
               = sv_measurand (mv_sampledValue (req_meterValue v ! i) ! k)
             \<and> r_phase (job_meterValues j
                 ! (sum_list (map (\<lambda>mv. length (mv_sampledValue mv)) (take i (req_meterValue v))) + k))
               = sv_phase (mv_sampledValue (req_meterValue v ! i) ! k)
             \<and> r_unit (job_meterValues j
                 ! (sum_list (map (\<lambda>mv. length (mv_sampledValue mv)) (take i (req_meterValue v))) + k))
               = sv_unit (mv_sampledValue (req_meterValue v ! i) ! k))"
proof -
  let ?j = "\<lparr>job_cpId = cp, job_connectorId = req_connectorId v,
             job_transactionId = req_transactionId v,
             job_meterValues = flattenMeterValues (req_meterValue v)\<rparr>"
  have "handleMeterValues cp v q = q @ [?j]" by (simp add: handleMeterValues_def)
  moreover have "job_cpId ?j = cp" "job_connectorId ?j = req_connectorId v"
    "job_transactionId ?j = req_transactionId v" by simp_all
  moreover have "length (job_meterValues ?j)
            = sum_list (map (\<lambda>mv. length (mv_sampledValue mv)) (req_meterValue v))"
    by (simp add: flatten_length)
  moreover have "\<forall>i < length (req_meterValue v). \<forall>k < length (mv_sampledValue (req_meterValue v ! i)).
             r_timestamp (job_meterValues ?j
                 ! (sum_list (map (\<lambda>mv. length (mv_sampledValue mv)) (take i (req_meterValue v))) + k))
               = mv_timestamp (req_meterValue v ! i)
             \<and> r_value (job_meterValues ?j
                 ! (sum_list (map (\<lambda>mv. length (mv_sampledValue mv)) (take i (req_meterValue v))) + k))
               = sv_value (mv_sampledValue (req_meterValue v ! i) ! k)
             \<and> r_measurand (job_meterValues ?j
                 ! (sum_list (map (\<lambda>mv. length (mv_sampledValue mv)) (take i (req_meterValue v))) + k))
               = sv_measurand (mv_sampledValue (req_meterValue v ! i) ! k)
             \<and> r_phase (job_meterValues ?j
                 ! (sum_list (map (\<lambda>mv. length (mv_sampledValue mv)) (take i (req_meterValue v))) + k))
               = sv_phase (mv_sampledValue (req_meterValue v ! i) ! k)
             \<and> r_unit (job_meterValues ?j
                 ! (sum_list (map (\<lambda>mv. length (mv_sampledValue mv)) (take i (req_meterValue v))) + k))
               = sv_unit (mv_sampledValue (req_meterValue v ! i) ! k)"
    by (simp add: flatten_nth flatReading_def)
  ultimately show ?thesis by blast
qed

theorem meter_values_flattened_witness:
  "\<exists>j. handleMeterValues ''CP001'' ex_meterValues [] = [j]
       \<and> length (job_meterValues j) = 3
       \<and> r_timestamp (job_meterValues j ! 0) = ''2024-01-01T10:00:00Z''
       \<and> r_timestamp (job_meterValues j ! 1) = ''2024-01-01T10:00:00Z''
       \<and> r_timestamp (job_meterValues j ! 2) = ''2024-01-01T10:05:00Z''"
proof -
  from meter_values_flattened [of "''CP001''" ex_meterValues "[]"]
  obtain j where j: "handleMeterValues ''CP001'' ex_meterValues [] = [] @ [j]"
    and len: "length (job_meterValues j)
            = sum_list (map (\<lambda>mv. length (mv_sampledValue mv)) (req_meterValue ex_meterValues))"
    and at: "\<And>i k. i < length (req_meterValue ex_meterValues)
        \<Longrightarrow> k < length (mv_sampledValue (req_meterValue ex_meterValues ! i))
        \<Longrightarrow> r_timestamp (job_meterValues j
                 ! (sum_list (map (\<lambda>mv. length (mv_sampledValue mv)) (take i (req_meterValue ex_meterValues))) + k))
               = mv_timestamp (req_meterValue ex_meterValues ! i)"
    by blast
  from len have three: "length (job_meterValues j) = 3"
    by (simp add: ex_meterValues_entries)
  from at [of 0 0] have t0: "r_timestamp (job_meterValues j ! 0) = ''2024-01-01T10:00:00Z''"
    by (simp add: ex_meterValues_entries)
  from at [of 0 1] have t1: "r_timestamp (job_meterValues j ! 1) = ''2024-01-01T10:00:00Z''"
    by (simp add: ex_meterValues_entries)
  from at [of 1 0] have t2: "r_timestamp (job_meterValues j ! 2) = ''2024-01-01T10:05:00Z''"
    by (simp add: ex_meterValues_entries)
  from j three t0 t1 t2 show ?thesis by auto
qed

section \<open>Reconnection\<close>

lemma id_sameButInfo: "sameButInfo r r' \<Longrightarrow> transactionId r' = transactionId r"
  by (auto simp: sameButInfo_iff)

lemma ids_map_sameButInfo:
  "\<forall>r. sameButInfo r (g r) \<Longrightarrow> map transactionId (map g xs) = map transactionId xs"
  by (simp add: id_sameButInfo)

lemma resumeAll_ids:
  "map transactionId (transactions (snd (resumeAll clock ts d))) = map transactionId (transactions d)"
proof -
  from resumeAll_shape [of clock ts d] obtain g where
    "transactions (snd (resumeAll clock ts d)) = map g (transactions d)" "\<forall>r. sameButInfo r (g r)"
    by blast
  then show ?thesis using ids_map_sameButInfo [of g "transactions d"] by simp
qed

lemma resumeTransaction_present:
  assumes "tid \<in> transactionId ` set (transactions d)"
  shows "\<exists>t. resumeTransaction now tid d =
           (Inr t, d\<lparr>transactions :=
                      map (\<lambda>r. if transactionId r = tid then resumeUpdate now r else r)
                        (transactions d)\<rparr>)"
proof -
  from assms obtain t where "findUnique tid d = Some t"
    by (cases "findUnique tid d") (auto simp: findUnique_None)
  then show ?thesis by (simp add: resumeTransaction_def updateTx_def)
qed

lemma resumeTransaction_absent:
  assumes "tid \<notin> transactionId ` set (transactions d)"
  shows "resumeTransaction now tid d = (Inl (Error (resumeNotFound tid)), d)"
  using assms by (simp add: resumeTransaction_def findUnique_None [THEN iffD2])

lemma resumeAll_present:
  assumes "\<forall>u \<in> set ts. transactionId u \<in> transactionId ` set (transactions d)"
  shows "resumeAll clock ts d = (None, d\<lparr>transactions := map (resumedBy clock ts) (transactions d)\<rparr>)"
  using assms
proof (induction ts arbitrary: clock d)
  case Nil
  then show ?case by simp
next
  case (Cons t ts)
  let ?g = "\<lambda>r. if transactionId r = transactionId t then resumeUpdate (clock 0) r else r"
  let ?d1 = "d\<lparr>transactions := map ?g (transactions d)\<rparr>"
  from Cons.prems have "transactionId t \<in> transactionId ` set (transactions d)" by simp
  from resumeTransaction_present [OF this, of "clock 0"] obtain x where
    r1: "resumeTransaction (clock 0) (transactionId t) d = (Inr x, ?d1)" by blast
  have "map transactionId (transactions ?d1) = map transactionId (transactions d)"
    by (simp add: resumeUpdate_def comp_def)
  then have "transactionId ` set (transactions ?d1) = transactionId ` set (transactions d)"
    by (metis list.set_map)
  with Cons.prems have "\<forall>u \<in> set ts. transactionId u \<in> transactionId ` set (transactions ?d1)"
    by simp
  from Cons.IH [OF this, of "\<lambda>i. clock (Suc i)"] r1 show ?case
    by (simp add: comp_def)
qed

lemma resumedBy_other:
  "transactionId r \<notin> transactionId ` set ts \<Longrightarrow> resumedBy clock ts r = r"
  by (induction ts arbitrary: clock) auto

lemma resumedBy_id: "transactionId (resumedBy clock ts r) = transactionId r"
  by (induction ts arbitrary: clock r) (auto simp: resumeUpdate_def)

lemma resumedBy_at:
  assumes "distinct (map transactionId ts)" "k < length ts"
    "transactionId (ts ! k) = transactionId r"
  shows "resumedBy clock ts r = resumeUpdate (clock k) r"
  using assms
proof (induction ts arbitrary: clock k)
  case Nil
  then show ?case by simp
next
  case (Cons t ts)
  show ?case
  proof (cases k)
    case 0
    with Cons.prems have same: "transactionId r = transactionId t" by simp
    from Cons.prems(1) same have "transactionId (resumeUpdate (clock 0) r) \<notin> transactionId ` set ts"
      by (simp add: resumeUpdate_def)
    from resumedBy_other [OF this] same 0 show ?thesis by simp
  next
    case (Suc k')
    with Cons.prems have k': "k' < length ts" "transactionId (ts ! k') = transactionId r"
      by simp_all
    then have "transactionId r \<in> transactionId ` set ts" by (metis imageI nth_mem)
    with Cons.prems(1) have "transactionId r \<noteq> transactionId t" by auto
    with Cons.IH [of k' "\<lambda>i. clock (Suc i)"] Cons.prems(1) k' Suc show ?thesis by simp
  qed
qed

lemma resumeAll_append:
  assumes "fst (resumeAll clock pre d) = None"
  shows "resumeAll clock (pre @ rest) d
           = resumeAll (\<lambda>i. clock (length pre + i)) rest (snd (resumeAll clock pre d))"
  using assms
proof (induction pre arbitrary: clock d)
  case Nil
  then show ?case by simp
next
  case (Cons t pre)
  obtain res d1 where r1: "resumeTransaction (clock 0) (transactionId t) d = (res, d1)"
    by (cases "resumeTransaction (clock 0) (transactionId t) d")
  show ?case
  proof (cases res)
    case (Inl e)
    with r1 Cons.prems show ?thesis by simp
  next
    case (Inr x)
    with r1 Cons.prems have "fst (resumeAll (\<lambda>i. clock (Suc i)) pre d1) = None" by simp
    from Cons.IH [OF this] r1 Inr show ?thesis by simp
  qed
qed

lemma resumeAll_fails_at:
  assumes "\<forall>u \<in> set pre. transactionId u \<in> transactionId ` set (transactions d)"
    and "transactionId t \<notin> transactionId ` set (transactions d)"
  shows "resumeAll clock (pre @ t # post) d
           = (Some (Error (resumeNotFound (transactionId t))), snd (resumeAll clock pre d))"
proof -
  from resumeAll_present [OF assms(1), of clock] have ok: "fst (resumeAll clock pre d) = None"
    by simp
  have "transactionId ` set (transactions (snd (resumeAll clock pre d)))
          = transactionId ` set (transactions d)"
    using resumeAll_ids [of clock pre d] by (metis list.set_map)
  with assms(2) have "transactionId t \<notin> transactionId ` set (transactions (snd (resumeAll clock pre d)))"
    by simp
  from resumeTransaction_absent [OF this] resumeAll_append [OF ok, of "t # post"]
  show ?thesis by simp
qed

lemma getActiveTransactions_set:
  "set (getActiveTransactions cp d) = {t \<in> set (transactions d). cpId t = cp \<and> status t = ''active''}"
  by (auto simp: getActiveTransactions_def findManyDesc_def activeOf_def)

lemma getActiveTransactions_length:
  "length (getActiveTransactions cp d)
     = length (filter (\<lambda>t. cpId t = cp \<and> status t = ''active'') (transactions d))"
proof -
  have "activeOf cp = (\<lambda>t. cpId t = cp \<and> status t = ''active'')"
    by (rule ext) (simp add: activeOf_def)
  then show ?thesis by (simp add: getActiveTransactions_def findManyDesc_def)
qed

lemma getActiveTransactions_sorted:
  "sorted_wrt (\<lambda>a b. startTimestamp b \<le> startTimestamp a) (getActiveTransactions cp d)"
proof -
  have "sorted (map (\<lambda>t. - startTimestamp t) (getActiveTransactions cp d))"
    by (simp add: getActiveTransactions_def findManyDesc_def)
  then show ?thesis by (simp add: sorted_map)
qed

lemma distinct_map_sort_key:
  "distinct (map f xs) \<Longrightarrow> distinct (map f (sort_key k xs))"
proof -
  assume d: "distinct (map f xs)"
  then have "distinct xs" "inj_on f (set xs)" by (simp_all add: distinct_map)
  then have "distinct (sort_key k xs)" "inj_on f (set (sort_key k xs))" by simp_all
  then show ?thesis by (simp add: distinct_map)
qed

lemma getActiveTransactions_distinct:
  assumes "distinct (map transactionId (transactions d))"
  shows "distinct (map transactionId (getActiveTransactions cp d))"
proof -
  from assms have "distinct (map transactionId (filter (activeOf cp) (transactions d)))"
    by (simp add: distinct_map_filter)
  then show ?thesis
    unfolding getActiveTransactions_def findManyDesc_def by (rule distinct_map_sort_key)
qed

lemma resumeUpdate_info:
  "\<exists>b'. additionalInfo (resumeUpdate now r) = Some b'
     \<and> map_of b' ''reconnectedAt'' = Some (JIso now [])
     \<and> (map_of (case additionalInfo r of None \<Rightarrow> [] | Some x \<Rightarrow> x) ''reconnectionCount'' = None
          \<longrightarrow> map_of b' ''reconnectionCount'' = Some (JNum 1))
     \<and> (\<forall>n. map_of (case additionalInfo r of None \<Rightarrow> [] | Some x \<Rightarrow> x) ''reconnectionCount''
               = Some (JNum n)
          \<longrightarrow> map_of b' ''reconnectionCount'' = Some (JNum (n + 1)))
     \<and> (\<forall>k. k \<noteq> ''reconnectedAt'' \<and> k \<noteq> ''reconnectionCount''
          \<longrightarrow> map_of b' k = map_of (case additionalInfo r of None \<Rightarrow> [] | Some x \<Rightarrow> x) k)"
  by (simp add: resumeUpdate_def resumedInfo_def Let_def update_conv)

lemma resumeUpdate_rest: "(resumeUpdate now r)\<lparr>additionalInfo := additionalInfo r\<rparr> = r"
  by (simp add: resumeUpdate_def)

lemma continue_present:
  assumes "distinct (map transactionId ts)"
    and "\<forall>u \<in> set ts. transactionId u \<in> transactionId ` set (transactions d)"
  shows "\<exists>d'. handleReconnection_continue clock ts d = (Inr ts, d')
           \<and> chargePoints d' = chargePoints d
           \<and> length (transactions d') = length (transactions d)
           \<and> (\<forall>i < length (transactions d).
                 (transactionId (transactions d ! i) \<notin> transactionId ` set ts
                    \<longrightarrow> transactions d' ! i = transactions d ! i)
                 \<and> (\<forall>k < length ts. transactionId (ts ! k) = transactionId (transactions d ! i)
                    \<longrightarrow> transactions d' ! i = resumeUpdate (clock k) (transactions d ! i)))"
proof -
  let ?d' = "d\<lparr>transactions := map (resumedBy clock ts) (transactions d)\<rparr>"
  from resumeAll_present [OF assms(2), of clock]
  have "handleReconnection_continue clock ts d = (Inr ts, ?d')"
    by (simp add: handleReconnection_continue_def)
  moreover have "chargePoints ?d' = chargePoints d" "length (transactions ?d') = length (transactions d)"
    by simp_all
  moreover have "\<forall>i < length (transactions d).
                 (transactionId (transactions d ! i) \<notin> transactionId ` set ts
                    \<longrightarrow> transactions ?d' ! i = transactions d ! i)
                 \<and> (\<forall>k < length ts. transactionId (ts ! k) = transactionId (transactions d ! i)
                    \<longrightarrow> transactions ?d' ! i = resumeUpdate (clock k) (transactions d ! i))"
    using assms(1) by (simp add: resumedBy_other resumedBy_at)
  ultimately show ?thesis by blast
qed

lemma continue_fails_at:
  assumes "\<forall>u \<in> set pre. transactionId u \<in> transactionId ` set (transactions d)"
    and "transactionId t \<notin> transactionId ` set (transactions d)"
  shows "handleReconnection_continue clock (pre @ t # post) d
           = (Inl (Error (resumeNotFound (transactionId t))),
              snd (handleReconnection_continue clock pre d))
         \<and> fst (handleReconnection_continue clock pre d) = Inr pre"
  using resumeAll_fails_at [OF assms, of clock post] resumeAll_present [OF assms(1), of clock]
  by (simp add: handleReconnection_continue_def)

lemma handleReconnection_succeeds:
  assumes "distinct (map transactionId (transactions d))"
  shows "fst (handleReconnection clock cp d) = Inr (getActiveTransactions cp d)"
proof -
  have "\<forall>u \<in> set (getActiveTransactions cp d). transactionId u \<in> transactionId ` set (transactions d)"
    by (auto simp: getActiveTransactions_set)
  from continue_present [OF getActiveTransactions_distinct [OF assms] this, of clock]
  show ?thesis by (auto simp: handleReconnection_def)
qed

lemma ex_active_of_CP1: "getActiveTransactions ''CP1'' ex_three = [ex_tx3, ex_tx2, ex_tx1]"
  by (simp add: getActiveTransactions_def findManyDesc_def activeOf_def ex_rows)

lemma ex_vanished_rows: "transactions ex_vanished = [ex_tx1, ex_tx3]"
  by (simp add: ex_vanished_def)

lemma ex_tx1_info:
  "additionalInfo ex_tx1 = Some [(''cpId'', JStr ''CP1''), (''connectorId'', JNum 1),
              (''idTag'', JStr ''TAG1''), (''meterStart'', JNum 1000),
              (''startTimestamp'', JIso 100 [])]"
  by (simp add: ex_tx1_def)

lemma list_of_two: "length xs = 2 \<Longrightarrow> xs = [xs ! 0, xs ! 1]"
  by (auto simp: numeral_2_eq_2 length_Suc_conv)

lemma list_of_three: "length xs = 3 \<Longrightarrow> xs = [xs ! 0, xs ! 1, xs ! 2]"
  by (auto simp: numeral_3_eq_3 length_Suc_conv)

text \<open>
  C8 (partial resume on reconnection). \<open>getActiveTransactions\<close> returns the active
  transactions of the charge point, all of them and each once, latest start first, and
  \<open>handleReconnection\<close> runs the resume loop over that list. When the keys of the store
  are distinct the whole call succeeds and returns the list. The loop, on any fetched
  list \<open>ts\<close> with distinct keys that are all in the store, succeeds and rewrites exactly
  the rows whose key is in \<open>ts\<close>, the row of the \<open>k\<close>-th element by the resume of
  iteration \<open>k\<close>. When the keys of the first elements \<open>pre\<close> are in the store and the key
  of the next element \<open>t\<close> is not, the loop throws \<open>Transaction N not found\<close> for the key
  \<open>N\<close> of \<open>t\<close>, the caller gets that error, and the store is the one the successful
  resume of \<open>pre\<close> leaves: nothing is rolled back. A resume changes a row in
  \<open>additionalInfo\<close> only: \<open>reconnectedAt\<close> becomes the time of the resume,
  \<open>reconnectionCount\<close> becomes 1 when it was absent and \<open>n + 1\<close> when it was the number
  \<open>n\<close>, every other member is kept.
\<close>

theorem reconnection_resumes:
  "set (getActiveTransactions cp d)
     = {t \<in> set (transactions d). cpId t = cp \<and> status t = ''active''}
   \<and> length (getActiveTransactions cp d)
       = length (filter (\<lambda>t. cpId t = cp \<and> status t = ''active'') (transactions d))
   \<and> sorted_wrt (\<lambda>a b. startTimestamp b \<le> startTimestamp a) (getActiveTransactions cp d)
   \<and> handleReconnection clock cp d
       = handleReconnection_continue clock (getActiveTransactions cp d) d
   \<and> (distinct (map transactionId (transactions d))
        \<longrightarrow> fst (handleReconnection clock cp d) = Inr (getActiveTransactions cp d))
   \<and> (distinct (map transactionId ts)
        \<and> (\<forall>u \<in> set ts. transactionId u \<in> transactionId ` set (transactions d))
        \<longrightarrow> (\<exists>d'. handleReconnection_continue clock ts d = (Inr ts, d')
               \<and> chargePoints d' = chargePoints d
               \<and> length (transactions d') = length (transactions d)
               \<and> (\<forall>i < length (transactions d).
                     (transactionId (transactions d ! i) \<notin> transactionId ` set ts
                        \<longrightarrow> transactions d' ! i = transactions d ! i)
                     \<and> (\<forall>k < length ts.
                           transactionId (ts ! k) = transactionId (transactions d ! i)
                        \<longrightarrow> transactions d' ! i = resumeUpdate (clock k) (transactions d ! i)))))
   \<and> ((\<forall>u \<in> set pre. transactionId u \<in> transactionId ` set (transactions d))
        \<and> transactionId t \<notin> transactionId ` set (transactions d)
        \<longrightarrow> handleReconnection_continue clock (pre @ t # post) d
              = (Inl (Error (''Transaction '' @ string_of_int (transactionId t) @ '' not found'')),
                 snd (handleReconnection_continue clock pre d))
            \<and> fst (handleReconnection_continue clock pre d) = Inr pre)
   \<and> (resumeUpdate now r)\<lparr>additionalInfo := additionalInfo r\<rparr> = r
   \<and> (\<exists>b'. additionalInfo (resumeUpdate now r) = Some b'
         \<and> map_of b' ''reconnectedAt'' = Some (JIso now [])
         \<and> (map_of (case additionalInfo r of None \<Rightarrow> [] | Some x \<Rightarrow> x) ''reconnectionCount'' = None
              \<longrightarrow> map_of b' ''reconnectionCount'' = Some (JNum 1))
         \<and> (\<forall>n. map_of (case additionalInfo r of None \<Rightarrow> [] | Some x \<Rightarrow> x) ''reconnectionCount''
                   = Some (JNum n)
              \<longrightarrow> map_of b' ''reconnectionCount'' = Some (JNum (n + 1)))
         \<and> (\<forall>k. k \<noteq> ''reconnectedAt'' \<and> k \<noteq> ''reconnectionCount''
              \<longrightarrow> map_of b' k = map_of (case additionalInfo r of None \<Rightarrow> [] | Some x \<Rightarrow> x) k))"
proof (intro conjI)
  show "set (getActiveTransactions cp d)
     = {t \<in> set (transactions d). cpId t = cp \<and> status t = ''active''}"
    by (rule getActiveTransactions_set)
  show "length (getActiveTransactions cp d)
       = length (filter (\<lambda>t. cpId t = cp \<and> status t = ''active'') (transactions d))"
    by (rule getActiveTransactions_length)
  show "sorted_wrt (\<lambda>a b. startTimestamp b \<le> startTimestamp a) (getActiveTransactions cp d)"
    by (rule getActiveTransactions_sorted)
  show "handleReconnection clock cp d
       = handleReconnection_continue clock (getActiveTransactions cp d) d"
    by (simp add: handleReconnection_def)
  show "distinct (map transactionId (transactions d))
        \<longrightarrow> fst (handleReconnection clock cp d) = Inr (getActiveTransactions cp d)"
    using handleReconnection_succeeds by blast
  show "distinct (map transactionId ts)
        \<and> (\<forall>u \<in> set ts. transactionId u \<in> transactionId ` set (transactions d))
        \<longrightarrow> (\<exists>d'. handleReconnection_continue clock ts d = (Inr ts, d')
               \<and> chargePoints d' = chargePoints d
               \<and> length (transactions d') = length (transactions d)
               \<and> (\<forall>i < length (transactions d).
                     (transactionId (transactions d ! i) \<notin> transactionId ` set ts
                        \<longrightarrow> transactions d' ! i = transactions d ! i)
                     \<and> (\<forall>k < length ts.
                           transactionId (ts ! k) = transactionId (transactions d ! i)
                        \<longrightarrow> transactions d' ! i = resumeUpdate (clock k) (transactions d ! i))))"
    using continue_present [of ts d clock] by blast
  show "(\<forall>u \<in> set pre. transactionId u \<in> transactionId ` set (transactions d))
        \<and> transactionId t \<notin> transactionId ` set (transactions d)
        \<longrightarrow> handleReconnection_continue clock (pre @ t # post) d
              = (Inl (Error (''Transaction '' @ string_of_int (transactionId t) @ '' not found'')),
                 snd (handleReconnection_continue clock pre d))
            \<and> fst (handleReconnection_continue clock pre d) = Inr pre"
    using continue_fails_at [of pre d t clock post] by (simp add: resumeNotFound_def)
  show "(resumeUpdate now r)\<lparr>additionalInfo := additionalInfo r\<rparr> = r"
    by (rule resumeUpdate_rest)
  show "\<exists>b'. additionalInfo (resumeUpdate now r) = Some b'
         \<and> map_of b' ''reconnectedAt'' = Some (JIso now [])
         \<and> (map_of (case additionalInfo r of None \<Rightarrow> [] | Some x \<Rightarrow> x) ''reconnectionCount'' = None
              \<longrightarrow> map_of b' ''reconnectionCount'' = Some (JNum 1))
         \<and> (\<forall>n. map_of (case additionalInfo r of None \<Rightarrow> [] | Some x \<Rightarrow> x) ''reconnectionCount''
                   = Some (JNum n)
              \<longrightarrow> map_of b' ''reconnectionCount'' = Some (JNum (n + 1)))
         \<and> (\<forall>k. k \<noteq> ''reconnectedAt'' \<and> k \<noteq> ''reconnectionCount''
              \<longrightarrow> map_of b' k = map_of (case additionalInfo r of None \<Rightarrow> [] | Some x \<Rightarrow> x) k)"
    by (rule resumeUpdate_info)
qed

theorem reconnection_resumes_witness:
  "length (getActiveTransactions ''CP1'' ex_three) = 3
   \<and> fst (handleReconnection ex_clock ''CP1'' ex_three) = Inr [ex_tx3, ex_tx2, ex_tx1]
   \<and> (\<exists>d'. handleReconnection_continue ex_clock [ex_tx3, ex_tx2, ex_tx1] ex_three
              = (Inr [ex_tx3, ex_tx2, ex_tx1], d')
          \<and> transactions d'
              = [resumeUpdate 1002 ex_tx1, resumeUpdate 1001 ex_tx2, resumeUpdate 1000 ex_tx3])
   \<and> handleReconnection_continue ex_clock [ex_tx3, ex_tx2, ex_tx1] ex_vanished
       = (Inl (Error ''Transaction 2 not found''),
          snd (handleReconnection_continue ex_clock [ex_tx3] ex_vanished))
   \<and> transactions (snd (handleReconnection_continue ex_clock [ex_tx3] ex_vanished))
       = [ex_tx1, resumeUpdate 1000 ex_tx3]
   \<and> (\<exists>b'. additionalInfo (resumeUpdate 1000 ex_tx1) = Some b'
          \<and> map_of b' ''reconnectedAt'' = Some (JIso 1000 [])
          \<and> map_of b' ''reconnectionCount'' = Some (JNum 1)
          \<and> map_of b' ''idTag'' = Some (JStr ''TAG1''))
   \<and> (\<exists>b''. additionalInfo (resumeUpdate 2000 (resumeUpdate 1000 ex_tx1)) = Some b''
          \<and> map_of b'' ''reconnectedAt'' = Some (JIso 2000 [])
          \<and> map_of b'' ''reconnectionCount'' = Some (JNum 2))"
proof -
  note all = reconnection_resumes [where cp = "''CP1''" and d = ex_three and clock = ex_clock
      and ts = "[ex_tx3, ex_tx2, ex_tx1]"]
  note gone = reconnection_resumes [where d = ex_vanished and clock = ex_clock
      and ts = "[ex_tx3]" and pre = "[ex_tx3]" and t = ex_tx2 and post = "[ex_tx1]"
      and now = 1000 and r = ex_tx1]
  have keys: "distinct (map transactionId (transactions ex_three))"
    by (simp add: ex_rows)
  have count: "length (getActiveTransactions ''CP1'' ex_three) = 3"
    using all [THEN conjunct2, THEN conjunct1] by (simp add: ex_rows)
  have whole: "fst (handleReconnection ex_clock ''CP1'' ex_three) = Inr [ex_tx3, ex_tx2, ex_tx1]"
    using keys all [THEN conjunct2, THEN conjunct2, THEN conjunct2, THEN conjunct2, THEN conjunct1]
    by (simp add: ex_active_of_CP1)
  have "\<exists>d'. handleReconnection_continue ex_clock [ex_tx3, ex_tx2, ex_tx1] ex_three
              = (Inr [ex_tx3, ex_tx2, ex_tx1], d')
          \<and> length (transactions d') = 3
          \<and> transactions d' ! 0 = resumeUpdate (ex_clock 2) ex_tx1
          \<and> transactions d' ! 1 = resumeUpdate (ex_clock 1) ex_tx2
          \<and> transactions d' ! 2 = resumeUpdate (ex_clock 0) ex_tx3"
  proof -
    from all [THEN conjunct2, THEN conjunct2, THEN conjunct2, THEN conjunct2, THEN conjunct2,
        THEN conjunct1]
    obtain d' where d': "handleReconnection_continue ex_clock [ex_tx3, ex_tx2, ex_tx1] ex_three
              = (Inr [ex_tx3, ex_tx2, ex_tx1], d')"
      and len: "length (transactions d') = length (transactions ex_three)"
      and at: "\<And>i k. i < length (transactions ex_three) \<Longrightarrow> k < length [ex_tx3, ex_tx2, ex_tx1]
         \<Longrightarrow> transactionId ([ex_tx3, ex_tx2, ex_tx1] ! k) = transactionId (transactions ex_three ! i)
         \<Longrightarrow> transactions d' ! i = resumeUpdate (ex_clock k) (transactions ex_three ! i)"
      by (auto simp: ex_rows)
    from at [of 0 2] have "transactions d' ! 0 = resumeUpdate (ex_clock 2) ex_tx1"
      by (simp add: ex_rows)
    moreover from at [of 1 1] have "transactions d' ! 1 = resumeUpdate (ex_clock 1) ex_tx2"
      by (simp add: ex_rows)
    moreover from at [of 2 0] have "transactions d' ! 2 = resumeUpdate (ex_clock 0) ex_tx3"
      by (simp add: ex_rows)
    moreover from len have "length (transactions d') = 3" by (simp add: ex_rows)
    ultimately show ?thesis using d' by blast
  qed
  then obtain d' where d': "handleReconnection_continue ex_clock [ex_tx3, ex_tx2, ex_tx1] ex_three
              = (Inr [ex_tx3, ex_tx2, ex_tx1], d')"
    and rows: "length (transactions d') = 3"
      "transactions d' ! 0 = resumeUpdate (ex_clock 2) ex_tx1"
      "transactions d' ! 1 = resumeUpdate (ex_clock 1) ex_tx2"
      "transactions d' ! 2 = resumeUpdate (ex_clock 0) ex_tx3"
    by blast
  have "transactions d' = [transactions d' ! 0, transactions d' ! 1, transactions d' ! 2]"
    using rows(1) by (rule list_of_three)
  also have "\<dots> = [resumeUpdate 1002 ex_tx1, resumeUpdate 1001 ex_tx2, resumeUpdate 1000 ex_tx3]"
    using rows(2-4) by (simp add: ex_clock_def)
  finally have "transactions d'
              = [resumeUpdate 1002 ex_tx1, resumeUpdate 1001 ex_tx2, resumeUpdate 1000 ex_tx3]" .
  with d' have resumed: "\<exists>d'. handleReconnection_continue ex_clock [ex_tx3, ex_tx2, ex_tx1] ex_three
              = (Inr [ex_tx3, ex_tx2, ex_tx1], d')
          \<and> transactions d'
              = [resumeUpdate 1002 ex_tx1, resumeUpdate 1001 ex_tx2, resumeUpdate 1000 ex_tx3]"
    by blast
  have failed: "handleReconnection_continue ex_clock [ex_tx3, ex_tx2, ex_tx1] ex_vanished
       = (Inl (Error ''Transaction 2 not found''),
          snd (handleReconnection_continue ex_clock [ex_tx3] ex_vanished))"
    using gone [THEN conjunct2, THEN conjunct2, THEN conjunct2, THEN conjunct2, THEN conjunct2,
        THEN conjunct2, THEN conjunct1]
    by (simp add: ex_vanished_rows ex_rows string_of_int_def string_of_nat.simps digit_char_def)
  have "\<exists>d'. handleReconnection_continue ex_clock [ex_tx3] ex_vanished = (Inr [ex_tx3], d')
          \<and> length (transactions d') = 2
          \<and> transactions d' ! 0 = ex_tx1
          \<and> transactions d' ! 1 = resumeUpdate (ex_clock 0) ex_tx3"
  proof -
    from gone [THEN conjunct2, THEN conjunct2, THEN conjunct2, THEN conjunct2, THEN conjunct2,
        THEN conjunct1]
    obtain d' where d': "handleReconnection_continue ex_clock [ex_tx3] ex_vanished = (Inr [ex_tx3], d')"
      and len: "length (transactions d') = length (transactions ex_vanished)"
      and other: "\<And>i. i < length (transactions ex_vanished)
         \<Longrightarrow> transactionId (transactions ex_vanished ! i) \<notin> transactionId ` set [ex_tx3]
         \<Longrightarrow> transactions d' ! i = transactions ex_vanished ! i"
      and at: "\<And>i k. i < length (transactions ex_vanished) \<Longrightarrow> k < length [ex_tx3]
         \<Longrightarrow> transactionId ([ex_tx3] ! k) = transactionId (transactions ex_vanished ! i)
         \<Longrightarrow> transactions d' ! i = resumeUpdate (ex_clock k) (transactions ex_vanished ! i)"
      by (auto simp: ex_vanished_rows ex_rows)
    from other [of 0] have "transactions d' ! 0 = ex_tx1"
      by (simp add: ex_vanished_rows ex_rows)
    moreover from at [of 1 0] have "transactions d' ! 1 = resumeUpdate (ex_clock 0) ex_tx3"
      by (simp add: ex_vanished_rows ex_rows)
    moreover from len have "length (transactions d') = 2" by (simp add: ex_vanished_rows)
    ultimately show ?thesis using d' by blast
  qed
  then obtain d2 where d2: "handleReconnection_continue ex_clock [ex_tx3] ex_vanished = (Inr [ex_tx3], d2)"
    and rows2: "length (transactions d2) = 2" "transactions d2 ! 0 = ex_tx1"
      "transactions d2 ! 1 = resumeUpdate (ex_clock 0) ex_tx3"
    by blast
  have "transactions d2 = [transactions d2 ! 0, transactions d2 ! 1]"
    using rows2(1) by (rule list_of_two)
  also have "\<dots> = [ex_tx1, resumeUpdate 1000 ex_tx3]"
    using rows2(2-3) by (simp add: ex_clock_def)
  finally have "transactions d2 = [ex_tx1, resumeUpdate 1000 ex_tx3]" .
  with d2 have partial: "transactions (snd (handleReconnection_continue ex_clock [ex_tx3] ex_vanished))
       = [ex_tx1, resumeUpdate 1000 ex_tx3]"
    by simp
  from gone [THEN conjunct2, THEN conjunct2, THEN conjunct2, THEN conjunct2, THEN conjunct2,
      THEN conjunct2, THEN conjunct2, THEN conjunct2]
  obtain b' where b: "additionalInfo (resumeUpdate 1000 ex_tx1) = Some b'
       \<and> map_of b' ''reconnectedAt'' = Some (JIso 1000 [])
       \<and> (map_of (case additionalInfo ex_tx1 of None \<Rightarrow> [] | Some x \<Rightarrow> x) ''reconnectionCount'' = None
            \<longrightarrow> map_of b' ''reconnectionCount'' = Some (JNum 1))
       \<and> (\<forall>n. map_of (case additionalInfo ex_tx1 of None \<Rightarrow> [] | Some x \<Rightarrow> x) ''reconnectionCount''
                 = Some (JNum n)
            \<longrightarrow> map_of b' ''reconnectionCount'' = Some (JNum (n + 1)))
       \<and> (\<forall>k. k \<noteq> ''reconnectedAt'' \<and> k \<noteq> ''reconnectionCount''
            \<longrightarrow> map_of b' k = map_of (case additionalInfo ex_tx1 of None \<Rightarrow> [] | Some x \<Rightarrow> x) k)" ..
  note b1 = b [THEN conjunct1]
  note b2 = b [THEN conjunct2, THEN conjunct1]
  note b3 = b [THEN conjunct2, THEN conjunct2, THEN conjunct1]
  note b5 = b [THEN conjunct2, THEN conjunct2, THEN conjunct2, THEN conjunct2, rule_format,
      of "''idTag''"]
  from b3 have once: "map_of b' ''reconnectionCount'' = Some (JNum 1)"
    by (simp add: ex_tx1_info)
  from b5 have tag: "map_of b' ''idTag'' = Some (JStr ''TAG1'')"
    by (simp add: ex_tx1_info)
  from b1 b2 once tag have info: "\<exists>b'. additionalInfo (resumeUpdate 1000 ex_tx1) = Some b'
          \<and> map_of b' ''reconnectedAt'' = Some (JIso 1000 [])
          \<and> map_of b' ''reconnectionCount'' = Some (JNum 1)
          \<and> map_of b' ''idTag'' = Some (JStr ''TAG1'')"
    by (intro exI [of _ b'] conjI)
  from reconnection_resumes [where now = 2000 and r = "resumeUpdate 1000 ex_tx1",
      THEN conjunct2, THEN conjunct2, THEN conjunct2, THEN conjunct2, THEN conjunct2,
      THEN conjunct2, THEN conjunct2, THEN conjunct2]
  obtain b'' where c: "additionalInfo (resumeUpdate 2000 (resumeUpdate 1000 ex_tx1)) = Some b''
       \<and> map_of b'' ''reconnectedAt'' = Some (JIso 2000 [])
       \<and> (map_of (case additionalInfo (resumeUpdate 1000 ex_tx1) of None \<Rightarrow> [] | Some x \<Rightarrow> x)
              ''reconnectionCount'' = None
            \<longrightarrow> map_of b'' ''reconnectionCount'' = Some (JNum 1))
       \<and> (\<forall>n. map_of (case additionalInfo (resumeUpdate 1000 ex_tx1) of None \<Rightarrow> [] | Some x \<Rightarrow> x)
              ''reconnectionCount'' = Some (JNum n)
            \<longrightarrow> map_of b'' ''reconnectionCount'' = Some (JNum (n + 1)))
       \<and> (\<forall>k. k \<noteq> ''reconnectedAt'' \<and> k \<noteq> ''reconnectionCount''
            \<longrightarrow> map_of b'' k
                = map_of (case additionalInfo (resumeUpdate 1000 ex_tx1) of None \<Rightarrow> [] | Some x \<Rightarrow> x) k)" ..
  note c1 = c [THEN conjunct1]
  note c2 = c [THEN conjunct2, THEN conjunct1]
  note c4 = c [THEN conjunct2, THEN conjunct2, THEN conjunct2, THEN conjunct1, rule_format, of 1]
  from c4 b1 once have twice: "map_of b'' ''reconnectionCount'' = Some (JNum 2)"
    by simp
  from c1 c2 twice have again: "\<exists>b''. additionalInfo (resumeUpdate 2000 (resumeUpdate 1000 ex_tx1)) = Some b''
          \<and> map_of b'' ''reconnectedAt'' = Some (JIso 2000 [])
          \<and> map_of b'' ''reconnectionCount'' = Some (JNum 2)"
    by (intro exI [of _ b''] conjI)
  show ?thesis by (intro conjI count whole resumed failed partial info again)
qed

section \<open>Charge-point status and the unresolved identity\<close>

lemma updateTx_chargePoints: "chargePoints (snd (updateTx tid f d)) = chargePoints d"
  by (simp add: updateTx_def split: option.splits)

lemma resumeTransaction_chargePoints:
  "chargePoints (snd (resumeTransaction now tid d)) = chargePoints d"
  by (simp add: resumeTransaction_def updateTx_chargePoints split: option.splits)

lemma resumeAll_chargePoints: "chargePoints (snd (resumeAll clock ts d)) = chargePoints d"
proof (induction ts arbitrary: clock d)
  case Nil
  then show ?case by simp
next
  case (Cons t ts)
  obtain res d1 where r1: "resumeTransaction (clock 0) (transactionId t) d = (res, d1)"
    by (cases "resumeTransaction (clock 0) (transactionId t) d")
  then have "chargePoints d1 = chargePoints d"
    using resumeTransaction_chargePoints [of "clock 0" "transactionId t" d] by simp
  with r1 Cons.IH [of "\<lambda>i. clock (Suc i)" d1] show ?case
    by (cases res) simp_all
qed

lemma handleReconnection_chargePoints:
  "chargePoints (snd (handleReconnection clock cp d)) = chargePoints d"
proof -
  have "snd (handleReconnection clock cp d) = snd (resumeAll clock (getActiveTransactions cp d) d)"
    by (simp add: handleReconnection_def handleReconnection_continue_def
        split: prod.splits option.splits)
  then show ?thesis by (simp add: resumeAll_chargePoints)
qed

lemma broadcast_status:
  "setChargePointStatus ''unknown'' st d
     = (None, d\<lparr>chargePoints := map (\<lambda>c. c\<lparr>cp_status := Some st\<rparr>) (chargePoints d)\<rparr>)"
  by (simp add: setChargePointStatus_def)

lemma single_status:
  assumes "cp \<noteq> ''unknown''" "distinct (map cp_cpId (chargePoints d))"
    "i < length (chargePoints d)" "cp_cpId (chargePoints d ! i) = cp"
  shows "setChargePointStatus cp st d
     = (None, d\<lparr>chargePoints := (chargePoints d)[i := (chargePoints d ! i)\<lparr>cp_status := Some st\<rparr>]\<rparr>)"
proof -
  from assms(3,4) have "cp \<in> cp_cpId ` set (chargePoints d)" by (metis imageI nth_mem)
  with assms(1) map_update_at [OF assms(2,3,4), of "\<lambda>c. c\<lparr>cp_status := Some st\<rparr>"]
  show ?thesis by (simp add: setChargePointStatus_def updateCp_def)
qed

lemma missing_status:
  assumes "cp \<noteq> ''unknown''" "cp \<notin> cp_cpId ` set (chargePoints d)"
  shows "setChargePointStatus cp st d = (Some RecordNotFound, d)"
  using assms by (simp add: setChargePointStatus_def updateCp_def)

lemma extractCpId_short:
  "length (filter (\<lambda>p. p \<noteq> []) (splitOn CHR ''/'' url)) < 3 \<Longrightarrow> extractCpId url = ''unknown''"
  by (simp add: extractCpId_def Let_def)

lemma onOpen_unknown:
  assumes "extractCpId url = ''unknown''"
  shows "fst (onOpen clock url d) = ''unknown''
     \<and> chargePoints (snd (onOpen clock url d))
         = map (\<lambda>c. c\<lparr>cp_status := Some ''Online''\<rparr>) (chargePoints d)"
  using assms by (simp add: onOpen_def Let_def handleReconnection_chargePoints broadcast_status)

lemma onClose_unknown:
  assumes "userCpId = None \<or> userCpId = Some [] \<or> userCpId = Some ''unknown''"
  shows "map cp_status (chargePoints (onClose now userCpId d))
           = map (\<lambda>c. Some ''Offline'') (chargePoints d)
       \<and> map cp_cpId (chargePoints (onClose now userCpId d)) = map cp_cpId (chargePoints d)"
proof -
  from assms have "(case userCpId of None \<Rightarrow> ''unknown'' | Some c \<Rightarrow> if c = [] then ''unknown'' else c)
      = ''unknown''" by auto
  then have "onClose now userCpId d
      = snd (setChargePointStatus ''unknown'' ''Offline'' (snd (updateLastSeen now ''unknown'' d)))"
    by (simp add: onClose_def Let_def)
  then show ?thesis
    by (simp add: broadcast_status updateLastSeen_def updateCp_def comp_def)
qed

lemma ex_idle_chargePoints: "chargePoints ex_idle = [ex_cp1, ex_cp2]"
  by (simp add: ex_idle_def)

lemma ex_cp_ids: "cp_cpId ex_cp1 = ''CP1''" "cp_cpId ex_cp2 = ''CP2''"
  by (simp_all add: ex_cp1_def ex_cp2_def)

lemma ex_split_short: "filter (\<lambda>p. p \<noteq> []) (splitOn CHR ''/'' ''/v1/ocpp'') = [''v1'', ''ocpp'']"
  by simp

text \<open>
  C10 (sentinel broadcast). \<open>setChargePointStatus\<close> with the id \<open>unknown\<close> always
  succeeds and sets the status of every row of \<open>charge_points\<close>, changing nothing else.
  With any other id it sets the status of the one row with that id and leaves all other
  rows as they were (the ids being the primary key), and throws, changing nothing, when
  there is no such row. A path with fewer than three non-empty segments resolves to the
  id \<open>unknown\<close>; the \<open>open\<close> hook of a connection whose path resolves to \<open>unknown\<close> sets
  every charge point \<open>Online\<close>, and the \<open>close\<close> hook of a connection whose stored id is
  missing, empty or \<open>unknown\<close> sets every charge point \<open>Offline\<close>.
\<close>

theorem sentinel_broadcast:
  "setChargePointStatus ''unknown'' st d
     = (None, d\<lparr>chargePoints := map (\<lambda>c. c\<lparr>cp_status := Some st\<rparr>) (chargePoints d)\<rparr>)
   \<and> (cp \<noteq> ''unknown'' \<and> distinct (map cp_cpId (chargePoints d))
        \<and> i < length (chargePoints d) \<and> cp_cpId (chargePoints d ! i) = cp
       \<longrightarrow> setChargePointStatus cp st d
            = (None, d\<lparr>chargePoints :=
                          (chargePoints d)[i := (chargePoints d ! i)\<lparr>cp_status := Some st\<rparr>]\<rparr>))
   \<and> (cp \<noteq> ''unknown'' \<and> cp \<notin> cp_cpId ` set (chargePoints d)
       \<longrightarrow> setChargePointStatus cp st d = (Some RecordNotFound, d))
   \<and> (length (filter (\<lambda>p. p \<noteq> []) (splitOn CHR ''/'' url)) < 3
       \<longrightarrow> extractCpId url = ''unknown'')
   \<and> (extractCpId url = ''unknown''
       \<longrightarrow> fst (onOpen clock url d) = ''unknown''
           \<and> chargePoints (snd (onOpen clock url d))
               = map (\<lambda>c. c\<lparr>cp_status := Some ''Online''\<rparr>) (chargePoints d))
   \<and> (userCpId = None \<or> userCpId = Some [] \<or> userCpId = Some ''unknown''
       \<longrightarrow> map cp_status (chargePoints (onClose now userCpId d))
             = map (\<lambda>c. Some ''Offline'') (chargePoints d)
           \<and> map cp_cpId (chargePoints (onClose now userCpId d)) = map cp_cpId (chargePoints d))"
proof (intro conjI impI)
  show "setChargePointStatus ''unknown'' st d
     = (None, d\<lparr>chargePoints := map (\<lambda>c. c\<lparr>cp_status := Some st\<rparr>) (chargePoints d)\<rparr>)"
    by (rule broadcast_status)
next
  assume "cp \<noteq> ''unknown'' \<and> distinct (map cp_cpId (chargePoints d))
        \<and> i < length (chargePoints d) \<and> cp_cpId (chargePoints d ! i) = cp"
  then show "setChargePointStatus cp st d
            = (None, d\<lparr>chargePoints :=
                          (chargePoints d)[i := (chargePoints d ! i)\<lparr>cp_status := Some st\<rparr>]\<rparr>)"
    using single_status [of cp d i st] by blast
next
  assume "cp \<noteq> ''unknown'' \<and> cp \<notin> cp_cpId ` set (chargePoints d)"
  then show "setChargePointStatus cp st d = (Some RecordNotFound, d)"
    using missing_status [of cp d st] by blast
next
  assume "length (filter (\<lambda>p. p \<noteq> []) (splitOn CHR ''/'' url)) < 3"
  then show "extractCpId url = ''unknown''" by (rule extractCpId_short)
next
  assume u: "extractCpId url = ''unknown''"
  from onOpen_unknown [OF u] show "fst (onOpen clock url d) = ''unknown''" by blast
  from onOpen_unknown [OF u] show "chargePoints (snd (onOpen clock url d))
               = map (\<lambda>c. c\<lparr>cp_status := Some ''Online''\<rparr>) (chargePoints d)" by blast
next
  assume c: "userCpId = None \<or> userCpId = Some [] \<or> userCpId = Some ''unknown''"
  from onClose_unknown [OF c] show "map cp_status (chargePoints (onClose now userCpId d))
             = map (\<lambda>c. Some ''Offline'') (chargePoints d)" by blast
  from onClose_unknown [OF c]
  show "map cp_cpId (chargePoints (onClose now userCpId d)) = map cp_cpId (chargePoints d)"
    by blast
qed

theorem sentinel_broadcast_witness:
  "chargePoints (snd (setChargePointStatus ''unknown'' ''Offline'' ex_idle))
     = [ex_cp1\<lparr>cp_status := Some ''Offline''\<rparr>, ex_cp2\<lparr>cp_status := Some ''Offline''\<rparr>]
   \<and> chargePoints (snd (setChargePointStatus ''CP2'' ''Charging'' ex_idle))
     = [ex_cp1, ex_cp2\<lparr>cp_status := Some ''Charging''\<rparr>]
   \<and> setChargePointStatus ''CP9'' ''Charging'' ex_idle = (Some RecordNotFound, ex_idle)
   \<and> extractCpId ''/v1/ocpp'' = ''unknown''
   \<and> chargePoints (snd (onOpen ex_clock ''/v1/ocpp'' ex_idle))
     = [ex_cp1\<lparr>cp_status := Some ''Online''\<rparr>, ex_cp2\<lparr>cp_status := Some ''Online''\<rparr>]
   \<and> map cp_status (chargePoints (onClose 2000 (Some ''unknown'') ex_idle))
     = [Some ''Offline'', Some ''Offline'']"
proof -
  note T = sentinel_broadcast [where d = ex_idle and url = "''/v1/ocpp''" and clock = ex_clock
      and now = 2000 and userCpId = "Some ''unknown''"]
  have all: "chargePoints (snd (setChargePointStatus ''unknown'' ''Offline'' ex_idle))
     = [ex_cp1\<lparr>cp_status := Some ''Offline''\<rparr>, ex_cp2\<lparr>cp_status := Some ''Offline''\<rparr>]"
    using T [where st = "''Offline''", THEN conjunct1] by (simp add: ex_idle_chargePoints)
  have one: "chargePoints (snd (setChargePointStatus ''CP2'' ''Charging'' ex_idle))
     = [ex_cp1, ex_cp2\<lparr>cp_status := Some ''Charging''\<rparr>]"
    using T [where st = "''Charging''" and cp = "''CP2''" and i = 1,
        THEN conjunct2, THEN conjunct1]
    by (simp add: ex_idle_chargePoints ex_cp_ids)
  have none: "setChargePointStatus ''CP9'' ''Charging'' ex_idle = (Some RecordNotFound, ex_idle)"
    using T [where st = "''Charging''" and cp = "''CP9''",
        THEN conjunct2, THEN conjunct2, THEN conjunct1]
    by (simp add: ex_idle_chargePoints ex_cp_ids)
  have unresolved: "extractCpId ''/v1/ocpp'' = ''unknown''"
    using T [THEN conjunct2, THEN conjunct2, THEN conjunct2, THEN conjunct1]
    by (simp add: ex_split_short)
  have opened: "chargePoints (snd (onOpen ex_clock ''/v1/ocpp'' ex_idle))
     = [ex_cp1\<lparr>cp_status := Some ''Online''\<rparr>, ex_cp2\<lparr>cp_status := Some ''Online''\<rparr>]"
    using unresolved T [THEN conjunct2, THEN conjunct2, THEN conjunct2, THEN conjunct2, THEN conjunct1]
    by (simp add: ex_idle_chargePoints)
  have closed: "map cp_status (chargePoints (onClose 2000 (Some ''unknown'') ex_idle))
     = [Some ''Offline'', Some ''Offline'']"
    using T [THEN conjunct2, THEN conjunct2, THEN conjunct2, THEN conjunct2, THEN conjunct2]
    by (simp add: ex_idle_chargePoints)
  show ?thesis by (intro conjI all one none unresolved opened closed)
qed

section \<open>Dispatch of actions\<close>

lemma handleAction_dispatch:
  "handleAction h cp ''BootNotification'' p s = handleBootNotification h cp p s"
  "handleAction h cp ''Heartbeat'' p s = handleHeartbeat h cp p s"
  "handleAction h cp ''Authorize'' p s = handleAuthorize h cp p s"
  "handleAction h cp ''StartTransaction'' p s = handleStartTransaction h cp p s"
  "handleAction h cp ''StopTransaction'' p s = handleStopTransaction h cp p s"
  "handleAction h cp ''StatusNotification'' p s = handleStatusNotification h cp p s"
  "handleAction h cp ''MeterValues'' p s = handleMeterValuesAction h cp p s"
  by (simp_all add: handleAction_def)

lemma handleAction_unsupported:
  assumes "action \<notin> {''BootNotification'', ''Heartbeat'', ''Authorize'', ''StartTransaction'',
                     ''StopTransaction'', ''StatusNotification'', ''MeterValues''}"
  shows "handleAction h cp action p s = (Inl (Error (''Unsupported action: '' @ action)), s)"
  using assms by (simp add: handleAction_def)

text \<open>
  C9 (unknown action), what the code does at a failing input. For the call
  \<open>[2, "19223201", "FirmwareStatusNotification", payload]\<close> the server answers
  \<open>[4, "unknown", "InternalError", "Unsupported action: FirmwareStatusNotification", {}]\<close>,
  whatever the handlers, the identity and the state: the error code is the one of every
  uncaught failure and the correlation id is lost. The in-memory server \<open>server.js\<close>
  answers the same call with
  \<open>[4, "19223201", "NotImplemented", "Action FirmwareStatusNotification not implemented", {}]\<close>.
\<close>

theorem unsupported_action_rendering:
  "handleMessage h noPayload cp (Frame 2 ''19223201'' ''FirmwareStatusNotification'' payload) s
     = ([CallError ''unknown'' ''InternalError''
           ''Unsupported action: FirmwareStatusNotification''], s)
   \<and> serverjs_call now ''19223201'' ''FirmwareStatusNotification'' n
     = (CallError ''19223201'' ''NotImplemented''
          ''Action FirmwareStatusNotification not implemented'', n)"
  by (simp add: handleMessage_def handleAction_def serverjs_call_def)

text \<open>
  X1 (dispatch table). Each of the seven action names is dispatched to its own handler
  and to nothing else: the result of \<open>handleAction\<close> is the result of that handler on the
  same identity, payload and state. Any other action name reaches no handler: the state
  is unchanged and the error \<open>Unsupported action: NAME\<close> is thrown.
\<close>

theorem dispatch_table:
  "handleAction h cp ''BootNotification'' p s = handleBootNotification h cp p s
   \<and> handleAction h cp ''Heartbeat'' p s = handleHeartbeat h cp p s
   \<and> handleAction h cp ''Authorize'' p s = handleAuthorize h cp p s
   \<and> handleAction h cp ''StartTransaction'' p s = handleStartTransaction h cp p s
   \<and> handleAction h cp ''StopTransaction'' p s = handleStopTransaction h cp p s
   \<and> handleAction h cp ''StatusNotification'' p s = handleStatusNotification h cp p s
   \<and> handleAction h cp ''MeterValues'' p s = handleMeterValuesAction h cp p s
   \<and> (action \<notin> {''BootNotification'', ''Heartbeat'', ''Authorize'', ''StartTransaction'',
                   ''StopTransaction'', ''StatusNotification'', ''MeterValues''}
       \<longrightarrow> handleAction h cp action p s = (Inl (Error (''Unsupported action: '' @ action)), s))"
  using handleAction_unsupported [of action h cp p s]
  by (simp add: handleAction_dispatch)

theorem dispatch_table_witness:
  "handleAction ex_handlers ''CP1'' ''Heartbeat'' () 0 = (Inr ''Heartbeat'', 1)
   \<and> handleAction ex_handlers ''CP1'' ''DataTransfer'' () 0
       = (Inl (Error ''Unsupported action: DataTransfer''), 0)"
  using dispatch_table [of ex_handlers "''CP1''" "()" 0 "''DataTransfer''"]
  by (simp add: ex_handlers_def)

end
